theory Spec2Isabelle
  imports Main "HOL-Library.Multiset" "HOL-Library.Sublist"
begin

section \<open>TodayEcho: the Echo roll generator, the daily ledger and the roll command\<close>

text \<open>
  The development embeds \<^verbatim>\<open>todayecho_echo/__init__.py\<close>. Python strings that carry
  chat text are lists of Unicode code points; user ids and ISO dates are plain strings;
  the numbers of a stat table are any linearly ordered type (Python's ints and floats
  without NaN); dictionaries are maps; every exception is a value.
\<close>

subsection \<open>Data model\<close>

type_synonym pystr = "nat list"

datatype exn = KeyError | ValueError | IndexError | RenderError nat

text \<open>One entry of \<^verbatim>\<open>config["substats"]\<close>.\<close>

record 'v stat_config =
  c_name :: pystr
  c_icon :: pystr
  c_values :: "'v list"
  c_is_percent :: bool

text \<open>
  \<^verbatim>\<open>config["settings"]\<close>: the command reads \<^verbatim>\<open>daily_limit\<close> and \<^verbatim>\<open>white_list\<close> with
  \<^verbatim>\<open>.get\<close> and a default, the generator reads \<^verbatim>\<open>stats_count\<close> by subscript, so each
  key may be absent.
\<close>

record settings =
  daily_limit :: "int option"
  white_list :: "string list option"
  stats_count :: "int option"

record 'v config =
  substats :: "'v stat_config list"
  settings :: settings

text \<open>Class \<^verbatim>\<open>PhantomStat\<close>; \<^verbatim>\<open>to_dict\<close> and \<^verbatim>\<open>from_dict\<close> copy the five fields.\<close>

record 'v PhantomStat =
  name :: pystr
  icon :: pystr
  stat_value :: 'v
  is_percent :: bool
  is_max :: bool

subsection \<open>The random source\<close>

text \<open>
  The generator of module \<^verbatim>\<open>random\<close> is an infinite sequence of raw draws. A call of
  \<^verbatim>\<open>_randbelow(n)\<close> consumes one draw and reduces it below \<open>n\<close>.
\<close>

type_synonym rng = "nat \<Rightarrow> nat"

definition rng_tail :: "rng \<Rightarrow> rng" where
  "rng_tail g = (\<lambda>i. g (Suc i))"

definition randbelow :: "nat \<Rightarrow> rng \<Rightarrow> nat \<times> rng" where
  "randbelow n g = (g 0 mod n, rng_tail g)"

text \<open>
  \<^verbatim>\<open>random.sample(population, k)\<close>, the selection loop over a pool:
  \<^verbatim>\<open>j = randbelow(n - i); result[i] = pool[j]; pool[j] = pool[n - i - 1]\<close>.
  The list argument is the live part \<^verbatim>\<open>pool[0 : n - i]\<close>.
\<close>

fun sample_pool :: "'a list \<Rightarrow> nat \<Rightarrow> rng \<Rightarrow> 'a list \<times> rng" where
  "sample_pool pool 0 g = ([], g)"
| "sample_pool pool (Suc k) g =
     (case randbelow (length pool) g of
        (j, g') \<Rightarrow>
          (case sample_pool (butlast (pool[j := last pool])) k g' of
             (rest, g'') \<Rightarrow> (pool ! j # rest, g'')))"

definition py_sample :: "'a list \<Rightarrow> int \<Rightarrow> rng \<Rightarrow> (exn + 'a list) \<times> rng" where
  "py_sample population k g =
     (if 0 \<le> k \<and> k \<le> int (length population)
      then (case sample_pool population (nat k) g of (r, g') \<Rightarrow> (Inr r, g'))
      else (Inl ValueError, g))"

text \<open>\<^verbatim>\<open>random.choice(seq)\<close> raises \<^verbatim>\<open>IndexError\<close> on an empty sequence.\<close>

definition py_choice :: "'a list \<Rightarrow> rng \<Rightarrow> (exn + 'a) \<times> rng" where
  "py_choice seq g =
     (if seq = [] then (Inl IndexError, g)
      else (case randbelow (length seq) g of (j, g') \<Rightarrow> (Inr (seq ! j), g')))"

text \<open>
  The builtin \<^verbatim>\<open>max\<close> of a list: the first element is the candidate, a later element
  replaces it when it is strictly greater; \<^verbatim>\<open>ValueError\<close> on an empty list.
\<close>

definition py_max :: "('v::linorder) list \<Rightarrow> exn + 'v" where
  "py_max vs =
     (case vs of
        [] \<Rightarrow> Inl ValueError
      | v # rest \<Rightarrow> Inr (fold (\<lambda>x m. if m < x then x else m) rest v))"

subsection \<open>The reward generator\<close>

text \<open>The body of the loop \<^verbatim>\<open>for stat_config in selected_configs\<close>.\<close>

definition roll_stat ::
  "('v::linorder) stat_config \<Rightarrow> rng \<Rightarrow> (exn + 'v PhantomStat) \<times> rng" where
  "roll_stat sc g =
     (case py_choice (c_values sc) g of
        (Inl e, g') \<Rightarrow> (Inl e, g')
      | (Inr v, g') \<Rightarrow>
          (case py_max (c_values sc) of
             Inl e \<Rightarrow> (Inl e, g')
           | Inr m \<Rightarrow>
               (Inr \<lparr>name = c_name sc, icon = c_icon sc, stat_value = v,
                     is_percent = c_is_percent sc, is_max = (v = m)\<rparr>, g')))"

fun roll_stats ::
  "('v::linorder) stat_config list \<Rightarrow> rng \<Rightarrow> (exn + 'v PhantomStat list) \<times> rng" where
  "roll_stats [] g = (Inr [], g)"
| "roll_stats (sc # scs) g =
     (case roll_stat sc g of
        (Inl e, g') \<Rightarrow> (Inl e, g')
      | (Inr s, g') \<Rightarrow>
          (case roll_stats scs g' of
             (Inl e, g'') \<Rightarrow> (Inl e, g'')
           | (Inr rest, g'') \<Rightarrow> (Inr (s # rest), g'')))"

text \<open>
  The local \<^verbatim>\<open>selected_configs\<close> of \<^verbatim>\<open>generate_phantom_stats\<close>:
  \<^verbatim>\<open>random.sample(substats, min(stats_count, len(substats)))\<close>.
\<close>

definition selected_configs ::
  "'v config \<Rightarrow> rng \<Rightarrow> (exn + 'v stat_config list) \<times> rng" where
  "selected_configs cfg g =
     (case stats_count (settings cfg) of
        None \<Rightarrow> (Inl KeyError, g)
      | Some n \<Rightarrow>
          py_sample (substats cfg) (min n (int (length (substats cfg)))) g)"

definition generate_phantom_stats ::
  "('v::linorder) config \<Rightarrow> rng \<Rightarrow> (exn + 'v PhantomStat list) \<times> rng" where
  "generate_phantom_stats cfg g =
     (case selected_configs cfg g of
        (Inl e, g') \<Rightarrow> (Inl e, g')
      | (Inr sel, g') \<Rightarrow> roll_stats sel g')"

subsection \<open>Parsing the roll count\<close>

text \<open>
  In a \<^verbatim>\<open>str\<close> pattern \<^verbatim>\<open>\d\<close> matches the Unicode decimal digits (general category
  Nd), and \<^verbatim>\<open>int\<close> converts them by their digit value. Every such digit lies in a block
  of ten consecutive code points; the list holds the code point of the zero of each block
  (Unicode 14.0, the table of CPython 3.11).
\<close>

definition nd_zero_points :: "nat list" where
  "nd_zero_points =
     [48, 1632, 1776, 1984, 2406, 2534, 2662, 2790, 2918, 3046, 3174, 3302, 3430, 3558,
      3664, 3792, 3872, 4160, 4240, 6112, 6160, 6470, 6608, 6784, 6800, 6992, 7088, 7232,
      7248, 42528, 43216, 43264, 43472, 43504, 43600, 44016, 65296, 66720, 68912, 69734,
      69872, 69942, 70096, 70384, 70736, 70864, 71248, 71360, 71472, 71904, 72016, 72784,
      73040, 73120, 92768, 92864, 93008, 120782, 120792, 120802, 120812, 120822, 123200,
      123632, 125264, 130032]"

definition digit_value :: "nat \<Rightarrow> nat option" where
  "digit_value c =
     (case find (\<lambda>z. z \<le> c \<and> c < z + 10) nd_zero_points of
        None \<Rightarrow> None
      | Some z \<Rightarrow> Some (c - z))"

definition is_digit :: "nat \<Rightarrow> bool" where
  "is_digit c = (digit_value c \<noteq> None)"

text \<open>\<^verbatim>\<open>str(n)\<close> for a natural number: its decimal digits in ASCII.\<close>

fun str_nat :: "nat \<Rightarrow> pystr" where
  "str_nat n = (if n < 10 then [48 + n] else str_nat (n div 10) @ [48 + n mod 10])"

declare str_nat.simps [simp del]

text \<open>
  \<^verbatim>\<open>s.replace(old, new)\<close>: the occurrences of \<open>old\<close> are found from the left and do not
  overlap; an empty \<open>old\<close> matches before every character and at the end.
\<close>

function py_replace :: "'a list \<Rightarrow> 'a list \<Rightarrow> 'a list \<Rightarrow> 'a list" where
  "py_replace old new [] = (if old = [] then new else [])"
| "py_replace old new (c # cs) =
     (if old = [] then new @ c # py_replace old new cs
      else if prefix old (c # cs)
        then new @ py_replace old new (drop (length old) (c # cs))
        else c # py_replace old new cs)"
  by pat_completeness auto
termination
  by (relation "measure (\<lambda>(old, new, s). length s)") auto

text \<open>The substring test \<^verbatim>\<open>sub in s\<close>.\<close>

fun py_contains :: "'a list \<Rightarrow> 'a list \<Rightarrow> bool" where
  "py_contains sub [] = (sub = [])"
| "py_contains sub (c # cs) = (prefix sub (c # cs) \<or> py_contains sub cs)"

text \<open>
  The dictionary \<^verbatim>\<open>cn_num_map\<close> in insertion order, the order in which
  \<^verbatim>\<open>cn_num_map.items()\<close> yields it: the CJK numerals zero to ten, eleven to twenty,
  two more words for two, and the circled digits one to ten.
\<close>

definition cn_num_map :: "(pystr \<times> nat) list" where
  "cn_num_map =
     [([38646], 0), ([19968], 1), ([20108], 2), ([19977], 3), ([22235], 4), ([20116], 5),
      ([20845], 6), ([19971], 7), ([20843], 8), ([20061], 9), ([21313], 10),
      ([21313, 19968], 11), ([21313, 20108], 12), ([21313, 19977], 13),
      ([21313, 22235], 14), ([21313, 20116], 15), ([21313, 20845], 16),
      ([21313, 19971], 17), ([21313, 20843], 18), ([21313, 20061], 19),
      ([20108, 21313], 20),
      ([20004], 2), ([20457], 2),
      ([9312], 1), ([9313], 2), ([9314], 3), ([9315], 4), ([9316], 5), ([9317], 6),
      ([9318], 7), ([9319], 8), ([9320], 9), ([9321], 10)]"

text \<open>\<^verbatim>\<open>for key, value in cn_num_map.items(): ev.text = ev.text.replace(key, str(value))\<close>\<close>

definition replace_all :: "(pystr \<times> nat) list \<Rightarrow> pystr \<Rightarrow> pystr" where
  "replace_all table t = fold (\<lambda>(key, n) s. py_replace key (str_nat n) s) table t"

definition cn_replace :: "pystr \<Rightarrow> pystr" where
  "cn_replace t = replace_all cn_num_map t"

text \<open>\<^verbatim>\<open>re.search(r'(\d+)', text)\<close>: the group is the first maximal run of digits.\<close>

definition re_search_digits :: "pystr \<Rightarrow> pystr option" where
  "re_search_digits s =
     (case dropWhile (\<lambda>c. \<not> is_digit c) s of
        [] \<Rightarrow> None
      | d # ds \<Rightarrow> Some (takeWhile is_digit (d # ds)))"

text \<open>
  \<^verbatim>\<open>int(s)\<close> on a string of digits, to an unbounded integer; anything else is a
  \<^verbatim>\<open>ValueError\<close>. The limit that recent interpreters put on the number of digits of
  such a string is not modelled.
\<close>

fun int_digits :: "pystr \<Rightarrow> int \<Rightarrow> exn + int" where
  "int_digits [] acc = Inr acc"
| "int_digits (c # cs) acc =
     (case digit_value c of
        None \<Rightarrow> Inl ValueError
      | Some d \<Rightarrow> int_digits cs (10 * acc + int d))"

definition py_int :: "pystr \<Rightarrow> exn + int" where
  "py_int s = (if s = [] then Inl ValueError else int_digits s 0)"

text \<open>
  \<^verbatim>\<open>roll_count = int(match.group(1)) if match and int(match.group(1)) > 0 else 1\<close>
\<close>

definition roll_count_of :: "pystr option \<Rightarrow> exn + int" where
  "roll_count_of m =
     (case m of
        None \<Rightarrow> Inr 1
      | Some grp \<Rightarrow>
          (case py_int grp of
             Inl e \<Rightarrow> Inl e
           | Inr n \<Rightarrow> Inr (if 0 < n then n else 1)))"

definition parse_roll_count :: "pystr \<Rightarrow> exn + int" where
  "parse_roll_count t = roll_count_of (re_search_digits (cn_replace t))"

subsection \<open>The ledger files\<close>

text \<open>
  A roll is stored as the list of its stats. The document of one file maps a date to a
  dictionary from user id to that user's rolls of the day. \<^verbatim>\<open>DATA_PATH\<close> holds one file
  per user id; a file that is not JSON reads as the empty document. Reading and writing
  a file do not fail, and a write replaces the whole file at once.
\<close>

type_synonym 'v roll_record = "'v PhantomStat list"

type_synonym 'v day_records = "string \<rightharpoonup> 'v roll_record list"

type_synonym 'v all_records = "string \<rightharpoonup> 'v day_records"

datatype 'v ledger_file = Unparsable | Json "'v all_records"

type_synonym 'v data_path = "string \<rightharpoonup> 'v ledger_file"

definition load_records :: "string \<Rightarrow> 'v data_path \<Rightarrow> 'v all_records" where
  "load_records uid fs =
     (case fs uid of
        None \<Rightarrow> Map.empty
      | Some Unparsable \<Rightarrow> Map.empty
      | Some (Json doc) \<Rightarrow> doc)"

definition save_records :: "string \<Rightarrow> 'v all_records \<Rightarrow> 'v data_path \<Rightarrow> 'v data_path" where
  "save_records uid records fs = fs(uid \<mapsto> Json records)"

text \<open>\<^verbatim>\<open>d.get(k, {})\<close> and \<^verbatim>\<open>d.get(k, [])\<close>.\<close>

definition get_day :: "'v all_records \<Rightarrow> string \<Rightarrow> 'v day_records" where
  "get_day doc day = (case doc day of None \<Rightarrow> Map.empty | Some d \<Rightarrow> d)"

definition get_rolls :: "'v day_records \<Rightarrow> string \<Rightarrow> 'v roll_record list" where
  "get_rolls d uid = (case d uid of None \<Rightarrow> [] | Some rs \<Rightarrow> rs)"

subsection \<open>Quota arithmetic\<close>

text \<open>The limit is an integer or \<^verbatim>\<open>math.inf\<close>.\<close>

datatype quota = Finite int | Unbounded

definition quota_minus :: "quota \<Rightarrow> int \<Rightarrow> quota" where
  "quota_minus q n = (case q of Finite l \<Rightarrow> Finite (l - n) | Unbounded \<Rightarrow> Unbounded)"

definition quota_times :: "quota \<Rightarrow> int \<Rightarrow> quota" where
  "quota_times q n = (case q of Finite l \<Rightarrow> Finite (l * n) | Unbounded \<Rightarrow> Unbounded)"

definition quota_le :: "quota \<Rightarrow> int \<Rightarrow> bool" where
  "quota_le q n = (case q of Finite l \<Rightarrow> l \<le> n | Unbounded \<Rightarrow> False)"

definition quota_less :: "quota \<Rightarrow> int \<Rightarrow> bool" where
  "quota_less q n = (case q of Finite l \<Rightarrow> l < n | Unbounded \<Rightarrow> False)"

subsection \<open>Events, replies and the world\<close>

record event =
  user_id :: string
  nickname :: "pystr option"
  text_of :: pystr

text \<open>
  What \<^verbatim>\<open>bot.send\<close> delivers: the hint that a count may follow the command, the two
  quota messages (the second carries the printed number \<^verbatim>\<open>rolls_remaining * 50\<close>), the
  message of an empty history, and a picture. Sending does not fail.
\<close>

datatype 'b reply =
    HelpHint
  | QuotaExhausted
  | QuotaInsufficient quota
  | NoHistory
  | Picture 'b

datatype log_entry =
    LogPerformed string pystr int
  | LogException exn

text \<open>
  The drawing functions work on PIL images and are not modelled beyond their interface:
  each call returns an image or raises.
\<close>

record ('v, 'img, 'b) render =
  draw_single_result_card :: "'v PhantomStat list \<Rightarrow> int \<Rightarrow> exn + 'img"
  combine_images :: "'img list \<Rightarrow> exn + 'img"
  add_footer :: "'img \<Rightarrow> pystr \<Rightarrow> quota \<Rightarrow> exn + 'img"
  convert_img :: "'img \<Rightarrow> exn + 'b"

text \<open>
  The state a handler reads and writes: the ledger files, the messages sent, the log, the
  random source, and the exception that left the handler, if any.
\<close>

record ('v, 'b) world =
  data_path :: "'v data_path"
  sent :: "'b reply list"
  logged :: "log_entry list"
  rng :: rng
  raised :: "exn option"

definition bot_send :: "'b reply \<Rightarrow> ('v, 'b) world \<Rightarrow> ('v, 'b) world" where
  "bot_send r w = w\<lparr>sent := sent w @ [r]\<rparr>"

definition user_name_of :: "event \<Rightarrow> pystr" where
  "user_name_of ev =
     (case nickname ev of None \<Rightarrow> [80, 108, 97, 121, 101, 114] | Some n \<Rightarrow> n)"

subsection \<open>The roll command\<close>

text \<open>
  \<^verbatim>\<open>limit = config["settings"].get("daily_limit", 20)\<close>, replaced by \<^verbatim>\<open>math.inf\<close> for a
  user of the white list.
\<close>

definition command_limit :: "'v config \<Rightarrow> string \<Rightarrow> quota" where
  "command_limit cfg uid =
     (if uid \<in> set (case white_list (settings cfg) of None \<Rightarrow> [] | Some wl \<Rightarrow> wl)
      then Unbounded
      else Finite (case daily_limit (settings cfg) of None \<Rightarrow> 20 | Some l \<Rightarrow> l))"

text \<open>\<^verbatim>\<open>random.random() < 0.2\<close> consumes one draw and holds for one residue in five.\<close>

definition random_lt_fifth :: "rng \<Rightarrow> bool \<times> rng" where
  "random_lt_fifth g = (g 0 mod 5 = 0, rng_tail g)"

text \<open>
  The loop \<^verbatim>\<open>for i in range(roll_count)\<close> of the \<^verbatim>\<open>try\<close> block: card \<open>i\<close> is drawn right
  after roll \<open>i\<close> is generated. The arguments are \<^verbatim>\<open>rolls_done\<close>, the index \<open>i\<close> and the
  number of iterations left; the result is \<^verbatim>\<open>new_stats_records\<close> and
  \<^verbatim>\<open>image_objects\<close>, or the exception that ended the loop.
\<close>

fun roll_loop ::
  "('v::linorder, 'img, 'b) render \<Rightarrow> 'v config \<Rightarrow> int \<Rightarrow> nat \<Rightarrow> nat \<Rightarrow> rng \<Rightarrow>
   (exn + 'v roll_record list \<times> 'img list) \<times> rng" where
  "roll_loop rd cfg rolls_done i 0 g = (Inr ([], []), g)"
| "roll_loop rd cfg rolls_done i (Suc n) g =
     (case generate_phantom_stats cfg g of
        (Inl e, g') \<Rightarrow> (Inl e, g')
      | (Inr stats, g') \<Rightarrow>
          (case draw_single_result_card rd stats (rolls_done + int i + 1) of
             Inl e \<Rightarrow> (Inl e, g')
           | Inr img \<Rightarrow>
               (case roll_loop rd cfg rolls_done (Suc i) n g' of
                  (Inl e, g'') \<Rightarrow> (Inl e, g'')
                | (Inr (records, images), g'') \<Rightarrow>
                    (Inr (stats # records, img # images), g''))))"

text \<open>
  Combining the cards, adding the footer and converting the picture, as both handlers do
  it: a single card gets the footer directly.
\<close>

definition finish_image ::
  "('v, 'img, 'b) render \<Rightarrow> 'img list \<Rightarrow> pystr \<Rightarrow> quota \<Rightarrow> exn + 'b" where
  "finish_image rd image_objects user_name remaining =
     (case (if length image_objects = 1 then Inr (image_objects ! 0)
            else combine_images rd image_objects) of
        Inl e \<Rightarrow> Inl e
      | Inr img \<Rightarrow>
          (case add_footer rd img user_name remaining of
             Inl e \<Rightarrow> Inl e
           | Inr final_img \<Rightarrow> convert_img rd final_img))"

text \<open>
  The \<^verbatim>\<open>try\<close> block of the roll command. It returns the world it reached and the
  exception that ended it, if any. The document written is
  \<^verbatim>\<open>{today_str: records_today}\<close>, with the new rolls appended to the user's list.
\<close>

definition roll_try ::
  "('v::linorder, 'img, 'b) render \<Rightarrow> 'v config \<Rightarrow> string \<Rightarrow> string \<Rightarrow> pystr \<Rightarrow>
   'v day_records \<Rightarrow> quota \<Rightarrow> int \<Rightarrow> ('v, 'b) world \<Rightarrow> ('v, 'b) world \<times> exn option" where
  "roll_try rd cfg today_str uid user_name records_today rolls_remaining roll_count w =
     (let user_daily_results = get_rolls records_today uid;
          rolls_done = int (length user_daily_results)
      in case roll_loop rd cfg rolls_done 0 (nat roll_count) (rng w) of
           (Inl e, g') \<Rightarrow> (w\<lparr>rng := g'\<rparr>, Some e)
         | (Inr (new_stats_records, image_objects), g') \<Rightarrow>
             (let records_today' =
                    records_today(uid \<mapsto> user_daily_results @ new_stats_records);
                  all_records = [today_str \<mapsto> records_today'];
                  w1 = w\<lparr>rng := g',
                         data_path := save_records uid all_records (data_path w)\<rparr>;
                  final_tuners_remaining = quota_minus rolls_remaining roll_count
              in case finish_image rd image_objects user_name final_tuners_remaining of
                   Inl e \<Rightarrow> (w1, Some e)
                 | Inr final_img_bytes \<Rightarrow>
                     ((bot_send (Picture final_img_bytes) w1)
                        \<lparr>logged := logged w1 @ [LogPerformed uid user_name roll_count]\<rparr>,
                      None)))"

text \<open>
  \<^verbatim>\<open>if (not match or roll_count < 1) and random.random() < 0.2\<close>: the hint is sent on a
  hit; the draw is made only when the first operand holds.
\<close>

definition maybe_hint :: "bool \<Rightarrow> ('v, 'b) world \<Rightarrow> ('v, 'b) world" where
  "maybe_hint cond w =
     (if cond
      then (case random_lt_fifth (rng w) of
              (hit, g') \<Rightarrow>
                (if hit then bot_send HelpHint (w\<lparr>rng := g'\<rparr>) else w\<lparr>rng := g'\<rparr>))
      else w)"

text \<open>
  The part of the roll command after the count is parsed: the optional hint, the read of
  the ledger, the two quota checks, and the \<^verbatim>\<open>try\<close> block with its handler.
\<close>

definition roll_checked ::
  "('v::linorder, 'img, 'b) render \<Rightarrow> 'v config \<Rightarrow> string \<Rightarrow> event \<Rightarrow> bool \<Rightarrow> int \<Rightarrow>
   ('v, 'b) world \<Rightarrow> ('v, 'b) world" where
  "roll_checked rd cfg today_str ev no_match roll_count w0 =
     (let uid = user_id ev;
          limit = command_limit cfg uid;
          w = maybe_hint (no_match \<or> roll_count < 1) w0;
          all_records = load_records uid (data_path w);
          records_today = get_day all_records today_str;
          user_daily_results = get_rolls records_today uid;
          rolls_done = int (length user_daily_results);
          rolls_remaining = quota_minus limit rolls_done
      in if quota_le rolls_remaining 0 then bot_send QuotaExhausted w
         else if quota_less rolls_remaining roll_count
           then bot_send (QuotaInsufficient (quota_times rolls_remaining 50)) w
           else (case roll_try rd cfg today_str uid (user_name_of ev) records_today
                        rolls_remaining roll_count w of
                   (w', None) \<Rightarrow> w'
                 | (w', Some e) \<Rightarrow> w'\<lparr>logged := logged w' @ [LogException e]\<rparr>))"

text \<open>
  The handler \<^verbatim>\<open>gacha_phantom_command\<close>, with the loaded configuration and the date of
  \<^verbatim>\<open>datetime.now()\<close> as arguments. A text that names the list or the result of the
  rolls returns at once. An exception of the count conversion is outside the \<^verbatim>\<open>try\<close>
  block and leaves the handler.
\<close>

definition gacha_phantom_command ::
  "('v::linorder, 'img, 'b) render \<Rightarrow> 'v config \<Rightarrow> string \<Rightarrow> event \<Rightarrow>
   ('v, 'b) world \<Rightarrow> ('v, 'b) world" where
  "gacha_phantom_command rd cfg today_str ev w =
     (if py_contains [21015, 34920] (text_of ev) \<or> py_contains [32467, 26524] (text_of ev)
      then w
      else (let m = re_search_digits (cn_replace (text_of ev))
            in case roll_count_of m of
                 Inl e \<Rightarrow> w\<lparr>raised := Some e\<rparr>
               | Inr roll_count \<Rightarrow> roll_checked rd cfg today_str ev (m = None) roll_count w))"

subsection \<open>The history command\<close>

definition history_limit :: "'v config \<Rightarrow> int" where
  "history_limit cfg = (case daily_limit (settings cfg) of None \<Rightarrow> 6 | Some l \<Rightarrow> l)"

text \<open>\<^verbatim>\<open>tuners_remaining = limit - len(user_daily_results)\<close>\<close>

definition history_tuners_remaining :: "'v config \<Rightarrow> 'v roll_record list \<Rightarrow> quota" where
  "history_tuners_remaining cfg user_daily_results =
     Finite (history_limit cfg - int (length user_daily_results))"

fun draw_history ::
  "('v, 'img, 'b) render \<Rightarrow> nat \<Rightarrow> 'v roll_record list \<Rightarrow> exn + 'img list" where
  "draw_history rd i [] = Inr []"
| "draw_history rd i (result_data # rest) =
     (case draw_single_result_card rd result_data (int i + 1) of
        Inl e \<Rightarrow> Inl e
      | Inr img \<Rightarrow>
          (case draw_history rd (Suc i) rest of
             Inl e \<Rightarrow> Inl e
           | Inr images \<Rightarrow> Inr (img # images)))"

definition show_gacha_history ::
  "('v, 'img, 'b) render \<Rightarrow> 'v config \<Rightarrow> string \<Rightarrow> event \<Rightarrow>
   ('v, 'b) world \<Rightarrow> ('v, 'b) world" where
  "show_gacha_history rd cfg today_str ev w =
     (let uid = user_id ev;
          all_records = load_records uid (data_path w);
          user_daily_results = get_day all_records today_str uid
      in case user_daily_results of
           None \<Rightarrow> bot_send NoHistory w
         | Some [] \<Rightarrow> bot_send NoHistory w
         | Some (r # rs) \<Rightarrow>
             (case draw_history rd 0 (r # rs) of
                Inl e \<Rightarrow> w\<lparr>logged := logged w @ [LogException e]\<rparr>
              | Inr image_objects \<Rightarrow>
                  (case finish_image rd image_objects (user_name_of ev)
                          (history_tuners_remaining cfg (r # rs)) of
                     Inl e \<Rightarrow> w\<lparr>logged := logged w @ [LogException e]\<rparr>
                   | Inr final_img_bytes \<Rightarrow> bot_send (Picture final_img_bytes) w)))"

subsection \<open>Notions used in the statements\<close>

text \<open>A rolled stat \<open>s\<close> comes from the definition \<open>sc\<close>.\<close>

definition drawn_from :: "'v PhantomStat \<Rightarrow> 'v stat_config \<Rightarrow> bool" where
  "drawn_from s sc \<longleftrightarrow>
     name s = c_name sc \<and> icon s = c_icon sc \<and> is_percent s = c_is_percent sc \<and>
     stat_value s \<in> set (c_values sc)"

text \<open>The generator called \<open>n\<close> times in a row, nothing else in between.\<close>

fun generate_n ::
  "('v::linorder) config \<Rightarrow> nat \<Rightarrow> rng \<Rightarrow> (exn + 'v roll_record list) \<times> rng" where
  "generate_n cfg 0 g = (Inr [], g)"
| "generate_n cfg (Suc n) g =
     (case generate_phantom_stats cfg g of
        (Inl e, g') \<Rightarrow> (Inl e, g')
      | (Inr stats, g') \<Rightarrow>
          (case generate_n cfg n g' of
             (Inl e, g'') \<Rightarrow> (Inl e, g'')
           | (Inr records, g'') \<Rightarrow> (Inr (stats # records), g'')))"

text \<open>
  The document the roll command writes for user \<open>uid\<close> on day \<open>today_str\<close> when it
  appends the rolls \<open>new\<close> to what the files \<open>fs\<close> hold.
\<close>

definition appended_doc ::
  "'v data_path \<Rightarrow> string \<Rightarrow> string \<Rightarrow> 'v roll_record list \<Rightarrow> 'v all_records" where
  "appended_doc fs uid today_str new =
     [today_str \<mapsto>
        (get_day (load_records uid fs) today_str)
          (uid \<mapsto> get_rolls (get_day (load_records uid fs) today_str) uid @ new)]"

text \<open>Today's number of rolls of a user, as the command counts it.\<close>

definition count_today :: "'v data_path \<Rightarrow> string \<Rightarrow> string \<Rightarrow> int" where
  "count_today fs uid today_str =
     int (length (get_rolls (get_day (load_records uid fs) today_str) uid))"

text \<open>The remaining quota \<^verbatim>\<open>rolls_remaining\<close> of the roll command.\<close>

definition remaining_today :: "'v config \<Rightarrow> 'v data_path \<Rightarrow> string \<Rightarrow> string \<Rightarrow> quota" where
  "remaining_today cfg fs uid today_str =
     quota_minus (command_limit cfg uid) (count_today fs uid today_str)"

text \<open>The text names the list or the result of the rolls: the command returns at once.\<close>

definition asks_for_list :: "event \<Rightarrow> bool" where
  "asks_for_list ev \<longleftrightarrow>
     py_contains [21015, 34920] (text_of ev) \<or> py_contains [32467, 26524] (text_of ev)"

text \<open>The command reaches its \<^verbatim>\<open>try\<close> block with the count \<open>n\<close>.\<close>

definition accepted :: "'v config \<Rightarrow> string \<Rightarrow> event \<Rightarrow> int \<Rightarrow> ('v, 'b) world \<Rightarrow> bool" where
  "accepted cfg today_str ev n w \<longleftrightarrow>
     \<not> asks_for_list ev \<and>
     \<not> quota_le (remaining_today cfg (data_path w) (user_id ev) today_str) 0 \<and>
     \<not> quota_less (remaining_today cfg (data_path w) (user_id ev) today_str) n"

text \<open>The world in which the \<^verbatim>\<open>try\<close> block starts: the hint may have been sent.\<close>

definition before_try :: "event \<Rightarrow> int \<Rightarrow> ('v, 'b) world \<Rightarrow> ('v, 'b) world" where
  "before_try ev n w =
     maybe_hint (re_search_digits (cn_replace (text_of ev)) = None \<or> n < 1) w"

text \<open>
  The ledger invariant: in every file, under every date, a user's list of rolls is no
  longer than the limit the command computes for that user.
\<close>

definition within_daily_limit :: "'v config \<Rightarrow> 'v data_path \<Rightarrow> bool" where
  "within_daily_limit cfg fs \<longleftrightarrow>
     (\<forall>f doc day d u rs.
        fs f = Some (Json doc) \<longrightarrow> doc day = Some d \<longrightarrow> d u = Some rs \<longrightarrow>
        \<not> quota_less (command_limit cfg u) (int (length rs)))"

text \<open>A sequence of roll commands, each with its date and event.\<close>

definition run_commands ::
  "('v::linorder, 'img, 'b) render \<Rightarrow> 'v config \<Rightarrow> (string \<times> event) list \<Rightarrow>
   ('v, 'b) world \<Rightarrow> ('v, 'b) world" where
  "run_commands rd cfg cmds w =
     fold (\<lambda>(today_str, ev). gacha_phantom_command rd cfg today_str ev) cmds w"

text \<open>
  The spec's reading of the substitution pass: a lookup table from single characters to
  numbers, applied to every character of the text at once. The table holds the
  one-character words of \<^verbatim>\<open>cn_num_map\<close>.
\<close>

definition single_words :: "(nat \<times> nat) list" where
  "single_words = map (\<lambda>(key, n). (hd key, n)) (filter (\<lambda>(key, n). length key = 1) cn_num_map)"

definition cn_sub :: "nat \<Rightarrow> pystr" where
  "cn_sub c = (case map_of single_words c of None \<Rightarrow> [c] | Some n \<Rightarrow> str_nat n)"

text \<open>A character that is neither a digit nor part of a numeral word.\<close>

definition plain_char :: "nat \<Rightarrow> bool" where
  "plain_char c \<longleftrightarrow> \<not> is_digit c \<and> c \<notin> set (concat (map fst cn_num_map))"

subsection \<open>Concrete inputs\<close>

text \<open>
  Three flat rows of the built-in stat table (attack, life, defence), two stats per roll,
  the built-in limit and white list.
\<close>

definition demo_config :: "int config" where
  "demo_config =
     \<lparr>substats =
        [\<lparr>c_name = [25915, 20987], c_icon = [25915, 20987],
          c_values = [50, 40, 30], c_is_percent = False\<rparr>,
         \<lparr>c_name = [29983, 21629], c_icon = [29983, 21629],
          c_values = [580, 540, 510, 470, 430, 390, 360, 320], c_is_percent = False\<rparr>,
         \<lparr>c_name = [38450, 24481], c_icon = [38450, 24481],
          c_values = [60, 50, 40], c_is_percent = False\<rparr>],
      settings =
        \<lparr>daily_limit = Some 20, white_list = Some [''644572093''], stats_count = Some 2\<rparr>\<rparr>"

definition negative_count_config :: "int config" where
  "negative_count_config =
     demo_config\<lparr>settings := (settings demo_config)\<lparr>stats_count := Some (- 1)\<rparr>\<rparr>"

definition demo_rng :: rng where
  "demo_rng = (\<lambda>i. 7 * i + 3)"

text \<open>
  A renderer that always succeeds and shows the remaining quota it was given, one whose
  card drawing raises, and one whose footer raises.
\<close>

definition demo_render :: "(int, quota, quota) render" where
  "demo_render =
     \<lparr>draw_single_result_card = (\<lambda>stats roll_number. Inr Unbounded),
      combine_images = (\<lambda>images. Inr Unbounded),
      add_footer = (\<lambda>img user_name remaining. Inr remaining),
      convert_img = (\<lambda>img. Inr img)\<rparr>"

definition failing_render :: "(int, quota, quota) render" where
  "failing_render =
     demo_render\<lparr>draw_single_result_card := (\<lambda>stats roll_number. Inl (RenderError 0))\<rparr>"

definition footer_failing_render :: "(int, quota, quota) render" where
  "footer_failing_render =
     demo_render\<lparr>add_footer := (\<lambda>img user_name remaining. Inl (RenderError 1))\<rparr>"

definition demo_roll :: "int roll_record" where
  "demo_roll =
     [\<lparr>name = [25915, 20987], icon = [25915, 20987], stat_value = 50,
       is_percent = False, is_max = True\<rparr>]"

definition empty_world :: "(int, quota) world" where
  "empty_world =
     \<lparr>data_path = Map.empty, sent = [], logged = [], rng = demo_rng, raised = None\<rparr>"

text \<open>The files after user \<open>uid\<close> has made \<open>n\<close> rolls on day \<open>day\<close>.\<close>

definition world_with :: "string \<Rightarrow> string \<Rightarrow> nat \<Rightarrow> (int, quota) world" where
  "world_with uid day n =
     empty_world\<lparr>data_path := [uid \<mapsto> Json [day \<mapsto> [uid \<mapsto> replicate n demo_roll]]]\<rparr>"

definition demo_event :: "string \<Rightarrow> pystr \<Rightarrow> event" where
  "demo_event uid t = \<lparr>user_id = uid, nickname = None, text_of = t\<rparr>"

section \<open>Properties\<close>

lemma distinct_mset_sub:
  assumes "mset xs \<subseteq># mset ys" "distinct ys"
  shows "distinct xs"
proof -
  have "count (mset xs) a = (if a \<in> set xs then 1 else 0)" for a
  proof -
    have "count (mset xs) a \<le> count (mset ys) a"
      using assms(1) by (rule mset_subset_eq_count)
    also have "\<dots> \<le> 1" using assms(2) by (simp add: distinct_count_atmost_1)
    finally have le: "count (mset xs) a \<le> 1" .
    show ?thesis
    proof (cases "a \<in> set xs")
      case True
      then have "0 < count (mset xs) a" by simp
      with le have "count (mset xs) a = 1" by linarith
      with True show ?thesis by simp
    next
      case False
      then show ?thesis by (simp add: count_eq_zero_iff)
    qed
  qed
  then show ?thesis by (simp add: distinct_count_atmost_1)
qed

lemma py_max_Max: "vs \<noteq> [] \<Longrightarrow> py_max vs = Inr (Max (set vs))"
proof (cases vs)
  case Nil
  assume "vs \<noteq> []"
  with Nil show ?thesis by simp
next
  case (Cons v rest)
  have "(\<lambda>x m. if m < x then x else m) = (max :: 'a \<Rightarrow> 'a \<Rightarrow> 'a)"
    by (auto simp: fun_eq_iff max_def)
  moreover have "Max (set (v # rest)) = fold max rest v" by (rule Max.set_eq_fold)
  ultimately show ?thesis using Cons by (simp add: py_max_def)
qed



subsection \<open>Sampling without replacement\<close>

lemma sample_pool_length: "sample_pool pool k g = (r, g') \<Longrightarrow> length r = k"
  by (induction k arbitrary: pool g r g') (auto simp: randbelow_def split: prod.splits)

lemma mset_butlast_update:
  assumes "j < length pool"
  shows "mset (butlast (pool[j := last pool])) = mset pool - {#pool ! j#}"
proof (cases "j = length pool - 1")
  case True
  with assms have "pool \<noteq> []" by auto
  then have e: "pool = butlast pool @ [last pool]" by simp
  have "pool ! j = last pool" using True \<open>pool \<noteq> []\<close> by (simp add: last_conv_nth)
  then have "pool[j := last pool] = pool" by (metis list_update_id)
  moreover have "mset (butlast pool) = mset pool - {#last pool#}"
    by (subst (2) e) simp
  ultimately show ?thesis using \<open>pool ! j = last pool\<close> by simp
next
  case False
  with assms have j: "j < length (butlast pool)" by simp
  have ne: "pool \<noteq> []" using assms by auto
  have m: "mset pool = add_mset (last pool) (mset (butlast pool))"
    using ne by (subst append_butlast_last_id[symmetric]) (simp_all del: append_butlast_last_id)
  have n: "butlast pool ! j = pool ! j" using j by (simp add: nth_butlast)
  have "butlast (pool[j := last pool]) = (butlast pool)[j := last pool]"
    using False by (simp add: butlast_list_update)
  then have "mset (butlast (pool[j := last pool]))
      = add_mset (last pool) (mset (butlast pool) - {#pool ! j#})"
    using j n by (simp add: mset_update)
  moreover have "pool ! j \<in># mset (butlast pool)"
    using j n by (metis nth_mem_mset)
  ultimately show ?thesis using m by simp
qed

lemma sample_pool_mset:
  "k \<le> length pool \<Longrightarrow> sample_pool pool k g = (r, g') \<Longrightarrow> mset r \<subseteq># mset pool"
proof (induction k arbitrary: pool g r g')
  case 0
  then show ?case by simp
next
  case (Suc k)
  define j where "j = g 0 mod length pool"
  have j: "j < length pool" using Suc.prems(1) by (cases pool) (simp_all add: j_def)
  obtain rest g2 where rest: "sample_pool (butlast (pool[j := last pool])) k (rng_tail g) = (rest, g2)"
    by force
  have r: "r = pool ! j # rest" using Suc.prems(2) rest by (simp add: randbelow_def j_def)
  have "k \<le> length (butlast (pool[j := last pool]))" using Suc.prems(1) by simp
  from Suc.IH[OF this rest] have "mset rest \<subseteq># mset pool - {#pool ! j#}"
    by (simp add: mset_butlast_update j)
  then show ?case using j r
    by (metis insert_subset_eq_iff mset.simps(2) nth_mem_mset)
qed

lemma sample_pool_map:
  "k \<le> length pool \<Longrightarrow> sample_pool pool k g = (r, g') \<Longrightarrow>
   sample_pool (map f pool) k g = (map f r, g')"
proof (induction k arbitrary: pool g r g')
  case 0
  then show ?case by simp
next
  case (Suc k)
  define j where "j = g 0 mod length pool"
  have j: "j < length pool" using Suc.prems(1) by (cases pool) (simp_all add: j_def)
  then have ne: "pool \<noteq> []" by auto
  obtain rest g2 where rest: "sample_pool (butlast (pool[j := last pool])) k (rng_tail g) = (rest, g2)"
    by force
  have r: "r = pool ! j # rest" "g' = g2" using Suc.prems(2) rest by (simp_all add: randbelow_def j_def)
  have "k \<le> length (butlast (pool[j := last pool]))" using Suc.prems(1) by simp
  from Suc.IH[OF this rest]
  have "sample_pool (map f (butlast (pool[j := last pool]))) k (rng_tail g) = (map f rest, g2)" .
  moreover have "map f (butlast (pool[j := last pool])) = butlast ((map f pool)[j := last (map f pool)])"
    using ne by (simp add: map_butlast map_update last_map)
  ultimately show ?case using r j by (simp add: randbelow_def j_def[symmetric])
qed

lemma sample_pool_indices:
  assumes "k \<le> length xs" "sample_pool xs k g = (r, g')"
  shows "\<exists>is. distinct is \<and> (\<forall>i\<in>set is. i < length xs) \<and> length is = k \<and> r = map ((!) xs) is"
proof -
  obtain js g2 where js: "sample_pool [0..<length xs] k g = (js, g2)" by force
  have k: "k \<le> length [0..<length xs]" using assms(1) by simp
  from sample_pool_map[OF k js, of "(!) xs"] assms(2)
  have r: "r = map ((!) xs) js" by (simp add: map_nth)
  from sample_pool_mset[OF k js] have sub: "mset js \<subseteq># mset [0..<length xs]" .
  then have "distinct js"
    by (rule distinct_mset_sub) simp
  moreover have "\<forall>i\<in>set js. i < length xs"
    using set_mset_mono[OF sub] by auto
  moreover have "length js = k" using sample_pool_length[OF js] .
  ultimately show ?thesis using r by blast
qed


subsection \<open>The reward generator\<close>

lemma roll_stat_Inr:
  assumes "roll_stat sc g = (Inr s, g')"
  shows "drawn_from s sc \<and> (is_max s \<longleftrightarrow> stat_value s = Max (set (c_values sc)))"
proof -
  from assms have ne: "c_values sc \<noteq> []"
    by (auto simp: roll_stat_def py_choice_def split: if_splits)
  then have j: "g 0 mod length (c_values sc) < length (c_values sc)" by simp
  from assms ne show ?thesis
    using nth_mem[OF j]
    by (auto simp: roll_stat_def py_choice_def randbelow_def py_max_Max drawn_from_def)
qed

lemma roll_stat_total:
  "c_values sc \<noteq> [] \<Longrightarrow> \<exists>s g'. roll_stat sc g = (Inr s, g')"
  by (simp add: roll_stat_def py_choice_def randbelow_def py_max_Max)

lemma roll_stats_Inr:
  "roll_stats scs g = (Inr stats, g') \<Longrightarrow>
   list_all2 (\<lambda>s sc. drawn_from s sc \<and> (is_max s \<longleftrightarrow> stat_value s = Max (set (c_values sc)))) stats scs"
proof (induction scs arbitrary: g stats g')
  case Nil
  then show ?case by simp
next
  case (Cons sc scs)
  from Cons.prems obtain s g1 rest where
    s: "roll_stat sc g = (Inr s, g1)" and rest: "roll_stats scs g1 = (Inr rest, g')"
    and st: "stats = s # rest"
    by (auto split: prod.splits sum.splits)
  show ?case using roll_stat_Inr[OF s] Cons.IH[OF rest] st by simp
qed

lemma roll_stats_total:
  "\<forall>sc\<in>set scs. c_values sc \<noteq> [] \<Longrightarrow> \<exists>stats g'. roll_stats scs g = (Inr stats, g')"
proof (induction scs arbitrary: g)
  case Nil
  then show ?case by simp
next
  case (Cons sc scs)
  from Cons.prems obtain s g1 where s: "roll_stat sc g = (Inr s, g1)"
    using roll_stat_total[of sc g] by auto
  from Cons.prems Cons.IH[of g1] obtain rest g2 where "roll_stats scs g1 = (Inr rest, g2)" by auto
  with s show ?case by simp
qed


lemma selected_configs_Inr:
  assumes "selected_configs cfg g = (Inr sel, g1)"
  shows "\<exists>n is. stats_count (settings cfg) = Some n \<and> 0 \<le> n \<and>
           int (length sel) = min n (int (length (substats cfg))) \<and> distinct is \<and>
           (\<forall>i\<in>set is. i < length (substats cfg)) \<and> sel = map ((!) (substats cfg)) is"
proof -
  from assms obtain n where n: "stats_count (settings cfg) = Some n"
    by (auto simp: selected_configs_def split: option.splits)
  define k where "k = min n (int (length (substats cfg)))"
  from assms n have k: "0 \<le> k" "k \<le> int (length (substats cfg))"
    and sp: "sample_pool (substats cfg) (nat k) g = (sel, g1)"
    by (auto simp: selected_configs_def py_sample_def k_def split: if_splits prod.splits)
  from k have "nat k \<le> length (substats cfg)" by simp
  from sample_pool_indices[OF this sp] obtain "is" where
    "distinct is" "\<forall>i\<in>set is. i < length (substats cfg)" "length is = nat k"
    "sel = map ((!) (substats cfg)) is" by blast
  moreover have "0 \<le> n" using k(1) by (simp add: k_def)
  ultimately show ?thesis using n k by (auto simp: k_def)
qed

lemma selected_configs_total:
  assumes "stats_count (settings cfg) = Some n" "0 \<le> n"
  shows "\<exists>sel g1. selected_configs cfg g = (Inr sel, g1) \<and> set sel \<subseteq> set (substats cfg)"
proof -
  define k where "k = min n (int (length (substats cfg)))"
  have k: "0 \<le> k" "k \<le> int (length (substats cfg))" using assms(2) by (simp_all add: k_def)
  obtain sel g1 where sp: "sample_pool (substats cfg) (nat k) g = (sel, g1)" by force
  have "nat k \<le> length (substats cfg)" using k by simp
  from sample_pool_mset[OF this sp] have "set sel \<subseteq> set (substats cfg)"
    by (metis set_mset_mono set_mset_mset)
  moreover have "selected_configs cfg g = (Inr sel, g1)"
    using assms(1) k sp by (simp add: selected_configs_def py_sample_def k_def)
  ultimately show ?thesis by blast
qed

text \<open>
  Claim C1, amended. When \<^verbatim>\<open>stats_count\<close> is not negative and every definition of the
  table has at least one candidate value, \<^verbatim>\<open>generate_phantom_stats\<close> returns; and
  whenever it returns, it returns exactly \<open>min(stats_count, |substats|)\<close> stats, each
  drawn from a definition of the table, at pairwise different positions of the table.
\<close>

theorem generate_phantom_stats_count_distinct:
  assumes "stats_count (settings cfg) = Some n"
  shows "(0 \<le> n \<and> (\<forall>sc\<in>set (substats cfg). c_values sc \<noteq> []) \<longrightarrow>
            (\<exists>stats g'. generate_phantom_stats cfg g = (Inr stats, g'))) \<and>
         (\<forall>stats g'. generate_phantom_stats cfg g = (Inr stats, g') \<longrightarrow>
            int (length stats) = min n (int (length (substats cfg))) \<and>
            (\<exists>is. distinct is \<and> (\<forall>i\<in>set is. i < length (substats cfg)) \<and>
                  list_all2 drawn_from stats (map ((!) (substats cfg)) is)))"
proof (intro conjI impI allI)
  assume h: "0 \<le> n \<and> (\<forall>sc\<in>set (substats cfg). c_values sc \<noteq> [])"
  from selected_configs_total[OF assms, of g] h obtain sel g1 where
    sel: "selected_configs cfg g = (Inr sel, g1)" "set sel \<subseteq> set (substats cfg)" by blast
  with h have "\<forall>sc\<in>set sel. c_values sc \<noteq> []" by blast
  from roll_stats_total[OF this, of g1] sel(1)
  show "\<exists>stats g'. generate_phantom_stats cfg g = (Inr stats, g')"
    by (simp add: generate_phantom_stats_def)
next
  fix stats g'
  assume gen: "generate_phantom_stats cfg g = (Inr stats, g')"
  then obtain sel g1 where sel: "selected_configs cfg g = (Inr sel, g1)"
    and rs: "roll_stats sel g1 = (Inr stats, g')"
    by (auto simp: generate_phantom_stats_def split: prod.splits sum.splits)
  from selected_configs_Inr[OF sel] assms obtain "is" where
    idx: "int (length sel) = min n (int (length (substats cfg)))" "distinct is"
        "\<forall>i\<in>set is. i < length (substats cfg)" "sel = map ((!) (substats cfg)) is"
    by auto
  have l2: "list_all2 drawn_from stats sel"
    using roll_stats_Inr[OF rs] by (rule list_all2_mono) simp
  then have "length stats = length sel" by (rule list_all2_lengthD)
  with idx(1) show "int (length stats) = min n (int (length (substats cfg)))" by simp
  show "\<exists>is. distinct is \<and> (\<forall>i\<in>set is. i < length (substats cfg)) \<and>
          list_all2 drawn_from stats (map ((!) (substats cfg)) is)"
    using idx l2 by blast
qed

text \<open>
  Claim C2. Every stat that \<^verbatim>\<open>generate_phantom_stats\<close> returns carries a value of its
  definition's candidate values, and its \<^verbatim>\<open>is_max\<close> flag is true exactly when that value
  equals the maximum of those candidate values.
\<close>

theorem generate_phantom_stats_is_max:
  assumes "generate_phantom_stats cfg g = (Inr stats, g')"
  shows "\<exists>sel g1. selected_configs cfg g = (Inr sel, g1) \<and>
           list_all2 (\<lambda>s sc. drawn_from s sc \<and>
                        (is_max s \<longleftrightarrow> stat_value s = Max (set (c_values sc)))) stats sel"
proof -
  from assms obtain sel g1 where sel: "selected_configs cfg g = (Inr sel, g1)"
    and rs: "roll_stats sel g1 = (Inr stats, g')"
    by (auto simp: generate_phantom_stats_def split: prod.splits sum.splits)
  from roll_stats_Inr[OF rs] sel show ?thesis by blast
qed

text \<open>
  Claim C1 as stated fails: with \<^verbatim>\<open>stats_count = -1\<close> the sample size is negative and
  \<^verbatim>\<open>random.sample\<close> raises \<^verbatim>\<open>ValueError\<close>, so no stats are returned.
\<close>

theorem generate_negative_count_raises:
  "generate_phantom_stats negative_count_config demo_rng = (Inl ValueError, demo_rng)"
  by (simp add: generate_phantom_stats_def selected_configs_def py_sample_def
      negative_count_config_def demo_config_def)

subsection \<open>Evaluating the generator on the demo table\<close>

lemma sample_pool_numeral:
  "sample_pool pool (numeral k) g =
     (case randbelow (length pool) g of
        (j, g') \<Rightarrow>
          (case sample_pool (butlast (pool[j := last pool])) (pred_numeral k) g' of
             (rest, g'') \<Rightarrow> (pool ! j # rest, g'')))"
  by (simp add: numeral_eq_Suc)

lemma Suc_Suc_0: "Suc (Suc 0) = 2"
  by simp

lemma list_update_Cons_numeral: "(x # xs)[numeral k := y] = x # xs[pred_numeral k := y]"
  by (simp add: numeral_eq_Suc)

lemmas run_simps = sample_pool_numeral Suc_Suc_0 list_update_Cons_numeral
  generate_phantom_stats_def selected_configs_def py_sample_def
  randbelow_def rng_tail_def roll_stat_def py_choice_def py_max_def

lemma demo_generate_fst:
  "fst (generate_phantom_stats demo_config demo_rng) =
     Inr [\<lparr>name = [25915, 20987], icon = [25915, 20987], stat_value = 30,
            is_percent = False, is_max = False\<rparr>,
          \<lparr>name = [38450, 24481], icon = [38450, 24481], stat_value = 60,
            is_percent = False, is_max = True\<rparr>]"
  by (simp add: run_simps demo_config_def demo_rng_def)

text \<open>Witness of C1 on the demo table: two stats out of three definitions.\<close>

theorem generate_phantom_stats_count_distinct_witness:
  "stats_count (settings demo_config) = Some 2 \<and>
   [] \<notin> set (map c_values (substats demo_config)) \<and>
   (\<exists>stats g'. generate_phantom_stats demo_config demo_rng = (Inr stats, g') \<and>
      int (length stats) = 2 \<and>
      (\<exists>is. distinct is \<and> (\<forall>i\<in>set is. i < 3) \<and>
            list_all2 drawn_from stats (map ((!) (substats demo_config)) is)))"
proof -
  have h1: "stats_count (settings demo_config) = Some 2" by (simp add: demo_config_def)
  have h2: "\<forall>sc\<in>set (substats demo_config). c_values sc \<noteq> []"
    by (simp add: demo_config_def)
  have len: "length (substats demo_config) = 3" by (simp add: demo_config_def)
  from generate_phantom_stats_count_distinct[OF h1, of demo_rng] h2
  obtain stats g' where gen: "generate_phantom_stats demo_config demo_rng = (Inr stats, g')"
    by auto
  from generate_phantom_stats_count_distinct[OF h1, of demo_rng] gen len
  have "int (length stats) = 2 \<and>
      (\<exists>is. distinct is \<and> (\<forall>i\<in>set is. i < 3) \<and>
            list_all2 drawn_from stats (map ((!) (substats demo_config)) is))"
    by auto
  moreover have "[] \<notin> set (map c_values (substats demo_config))"
    by (simp add: demo_config_def)
  ultimately show ?thesis using h1 gen by blast
qed

text \<open>
  Witness of C2 on the demo table: the value 30 out of 50, 40, 30 is not flagged, the
  value 60 out of 60, 50, 40 is.
\<close>

theorem generate_phantom_stats_is_max_witness:
  "\<exists>sel g1. selected_configs demo_config demo_rng = (Inr sel, g1) \<and>
     list_all2 (\<lambda>s sc. drawn_from s sc \<and>
                  (is_max s \<longleftrightarrow> stat_value s = Max (set (c_values sc))))
       [\<lparr>name = [25915, 20987], icon = [25915, 20987], stat_value = 30,
          is_percent = False, is_max = False\<rparr>,
        \<lparr>name = [38450, 24481], icon = [38450, 24481], stat_value = 60,
          is_percent = False, is_max = True\<rparr>] sel"
proof -
  have "generate_phantom_stats demo_config demo_rng =
      (Inr [\<lparr>name = [25915, 20987], icon = [25915, 20987], stat_value = 30,
             is_percent = False, is_max = False\<rparr>,
            \<lparr>name = [38450, 24481], icon = [38450, 24481], stat_value = 60,
             is_percent = False, is_max = True\<rparr>],
       snd (generate_phantom_stats demo_config demo_rng))"
    using demo_generate_fst by (metis prod.collapse)
  from generate_phantom_stats_is_max[OF this] show ?thesis .
qed

subsection \<open>The substitution pass and the roll count\<close>

lemma replace_single:
  "py_replace [k] new s = concat (map (\<lambda>c. if c = k then new else [c]) s)"
  by (induction s) auto

lemma concat_map_compose:
  "concat (map f (concat (map g s))) = concat (map (\<lambda>c. concat (map f (g c))) s)"
  by (induction s) simp_all

lemma replace_absent:
  "a \<in> set key \<Longrightarrow> a \<notin> set s \<Longrightarrow> py_replace key new s = s"
proof (induction s)
  case Nil
  then show ?case by auto
next
  case (Cons c cs)
  have "\<not> prefix key (c # cs)"
  proof
    assume "prefix key (c # cs)"
    then have "set key \<subseteq> set (c # cs)" by (rule set_mono_prefix)
    with Cons.prems show False by blast
  qed
  moreover have "key \<noteq> []" using Cons.prems(1) by auto
  ultimately show ?case using Cons by simp
qed

lemma replace_all_absent:
  "\<forall>(key, n)\<in>set tbl. a \<in> set key \<Longrightarrow> a \<notin> set s \<Longrightarrow> replace_all tbl s = s"
  by (induction tbl) (auto simp: replace_all_def replace_absent)

lemma replace_all_append:
  "replace_all (xs @ ys) s = replace_all ys (replace_all xs s)"
  by (simp add: replace_all_def)

lemma str_nat_digits: "d \<in> set (str_nat n) \<Longrightarrow> 48 \<le> d \<and> d < 58"
proof (induction n rule: str_nat.induct)
  case (1 n)
  show ?case
  proof (cases "n < 10")
    case True
    with "1.prems" show ?thesis by (simp add: str_nat.simps[of n])
  next
    case False
    have "d \<in> set (str_nat (n div 10)) \<or> d = 48 + n mod 10"
      using "1.prems" False by (auto simp: str_nat.simps[of n])
    moreover have "n mod 10 < 10" by simp
    ultimately show ?thesis using "1.IH" False by auto
  qed
qed

lemma str_nat_nonempty: "str_nat n \<noteq> []"
  by (simp add: str_nat.simps[of n])

text \<open>A table of one-character words whose outputs are never words themselves acts as one
  simultaneous substitution.\<close>

lemma replace_all_singles:
  assumes "\<forall>(k, n)\<in>set tbl. 58 \<le> k"
  shows "replace_all (map (\<lambda>(k, n). ([k], n)) tbl) s =
           concat (map (\<lambda>c. case map_of tbl c of None \<Rightarrow> [c] | Some n \<Rightarrow> str_nat n) s)"
  using assms
proof (induction tbl arbitrary: s)
  case Nil
  then show ?case by (simp add: replace_all_def)
next
  case (Cons e tbl)
  obtain k n where e: "e = (k, n)" by (cases e)
  let ?sub = "\<lambda>c. case map_of tbl c of None \<Rightarrow> [c] | Some n \<Rightarrow> str_nat n"
  have keys: "\<forall>(k, n)\<in>set tbl. 58 \<le> k" using Cons.prems by auto
  have dig: "concat (map ?sub (str_nat n)) = str_nat n"
  proof -
    have sub: "?sub d = [d]" if "d \<in> set (str_nat n)" for d
    proof -
      from that have "d < 58" using str_nat_digits by blast
      then have "map_of tbl d = None"
        using keys by (force simp: map_of_eq_None_iff)
      then show ?thesis by simp
    qed
    have m: "map ?sub (str_nat n) = map (\<lambda>d. [d]) (str_nat n)"
      by (rule map_cong) (simp_all add: sub)
    have c: "concat (map (\<lambda>d. [d]) xs) = xs" for xs :: "nat list"
      by (induction xs) simp_all
    show ?thesis by (simp only: m c)
  qed
  have "replace_all (map (\<lambda>(k, n). ([k], n)) (e # tbl)) s
      = replace_all (map (\<lambda>(k, n). ([k], n)) tbl) (py_replace [k] (str_nat n) s)"
    by (simp add: replace_all_def e)
  also have "\<dots> = concat (map ?sub (py_replace [k] (str_nat n) s))"
    using Cons.IH[OF keys] .
  also have "\<dots> = concat (map (\<lambda>c. concat (map ?sub (if c = k then str_nat n else [c]))) s)"
    by (simp only: replace_single concat_map_compose)
  also have "\<dots> = concat (map (\<lambda>c. case map_of (e # tbl) c of None \<Rightarrow> [c] | Some n \<Rightarrow> str_nat n) s)"
    by (rule arg_cong[where f=concat], rule map_cong) (auto simp: e dig)
  finally show ?case .
qed


lemma single_words_eq:
  "single_words =
     [(38646, 0), (19968, 1), (20108, 2), (19977, 3), (22235, 4), (20116, 5), (20845, 6),
      (19971, 7), (20843, 8), (20061, 9), (21313, 10), (20004, 2), (20457, 2), (9312, 1),
      (9313, 2), (9314, 3), (9315, 4), (9316, 5), (9317, 6), (9318, 7), (9319, 8),
      (9320, 9), (9321, 10)]"
  by (simp add: single_words_def cn_num_map_def)

lemma single_words_keys: "\<forall>(k, n)\<in>set single_words. 58 \<le> k"
  by (simp add: single_words_eq)

lemma cn_num_map_split:
  "cn_num_map =
     map (\<lambda>(k, n). ([k], n)) (take 11 single_words) @
     [([21313, 19968], 11), ([21313, 20108], 12), ([21313, 19977], 13),
      ([21313, 22235], 14), ([21313, 20116], 15), ([21313, 20845], 16),
      ([21313, 19971], 17), ([21313, 20843], 18), ([21313, 20061], 19),
      ([20108, 21313], 20)] @
     map (\<lambda>(k, n). ([k], n)) (drop 11 single_words)"
  by (simp add: single_words_eq cn_num_map_def)

text \<open>The substitution pass is the simultaneous lookup: the entries for the compound
  numerals never apply.\<close>

lemma cn_replace_eq: "cn_replace t = concat (map cn_sub t)"
proof -
  let ?mk = "\<lambda>(k, n). ([k], n)"
  let ?A = "take 11 single_words"
  let ?C = "drop 11 single_words"
  let ?B = "[([21313, 19968], 11), ([21313, 20108], 12), ([21313, 19977], 13),
      ([21313, 22235], 14), ([21313, 20116], 15), ([21313, 20845], 16),
      ([21313, 19971], 17), ([21313, 20843], 18), ([21313, 20061], 19),
      ([20108, 21313], 20::nat)]"
  define s1 where "s1 = replace_all (map ?mk ?A) t"
  have keysA: "\<forall>(k, n)\<in>set ?A. 58 \<le> k"
    using single_words_keys by (auto dest: in_set_takeD)
  have s1: "s1 = concat (map (\<lambda>c. case map_of ?A c of None \<Rightarrow> [c] | Some n \<Rightarrow> str_nat n) t)"
    unfolding s1_def by (rule replace_all_singles[OF keysA])
  have ten: "map_of ?A 21313 = Some 10" by (simp add: single_words_eq)
  have "21313 \<notin> set s1"
  proof
    assume "21313 \<in> set s1"
    then obtain c where "c \<in> set t"
      and in_c: "21313 \<in> set (case map_of ?A c of None \<Rightarrow> [c] | Some n \<Rightarrow> str_nat n)"
      unfolding s1 by auto
    show False
    proof (cases "map_of ?A c")
      case None
      with in_c have "c = 21313" by simp
      with None ten show False by simp
    next
      case (Some n)
      with in_c have "21313 \<in> set (str_nat n)" by simp
      then show False using str_nat_digits by fastforce
    qed
  qed
  then have B: "replace_all ?B s1 = s1"
    by (intro replace_all_absent[where a = 21313]) simp_all
  have "cn_replace t = replace_all (map ?mk ?C) (replace_all ?B s1)"
    unfolding cn_replace_def s1_def
    by (subst cn_num_map_split) (simp only: replace_all_append)
  also have "\<dots> = replace_all (map ?mk ?C) s1"
    by (simp only: B)
  also have "\<dots> = replace_all (map ?mk (?A @ ?C)) t"
    by (simp only: s1_def map_append replace_all_append)
  also have "\<dots> = concat (map cn_sub t)"
  proof -
    have "cn_sub = (\<lambda>c. case map_of single_words c of None \<Rightarrow> [c] | Some n \<Rightarrow> str_nat n)"
      by (simp add: fun_eq_iff cn_sub_def)
    then show ?thesis
      using replace_all_singles[OF single_words_keys, of t] by simp
  qed
  finally show ?thesis .
qed

lemma digit_value_ascii: "k < 10 \<Longrightarrow> digit_value (48 + k) = Some k"
  by (simp add: digit_value_def nd_zero_points_def)

lemma str_nat_is_digit: "d \<in> set (str_nat n) \<Longrightarrow> is_digit d"
proof -
  assume "d \<in> set (str_nat n)"
  then have "48 \<le> d \<and> d < 58" by (rule str_nat_digits)
  then have "d = 48 + (d - 48)" "d - 48 < 10" by auto
  then show ?thesis using digit_value_ascii[of "d - 48"] by (simp add: is_digit_def)
qed

lemma int_digits_append:
  "int_digits (xs @ ys) acc =
     (case int_digits xs acc of Inl e \<Rightarrow> Inl e | Inr v \<Rightarrow> int_digits ys v)"
  by (induction xs arbitrary: acc) (auto split: option.splits)

lemma int_digits_str_nat: "int_digits (str_nat n) 0 = Inr (int n)"
proof (induction n rule: str_nat.induct)
  case (1 n)
  show ?case
  proof (cases "n < 10")
    case True
    then show ?thesis by (simp add: str_nat.simps[of n] digit_value_ascii)
  next
    case False
    have "n mod 10 < 10" by simp
    then have "digit_value (48 + n mod 10) = Some (n mod 10)" by (rule digit_value_ascii)
    moreover have "10 * int (n div 10) + int (n mod 10) = int n" by presburger
    ultimately show ?thesis using False "1.IH"
      by (simp add: str_nat.simps[of n] int_digits_append)
  qed
qed

lemma py_int_str_nat: "py_int (str_nat n) = Inr (int n)"
  by (simp add: py_int_def str_nat_nonempty int_digits_str_nat)

lemma int_digits_total:
  "\<forall>c\<in>set ds. is_digit c \<Longrightarrow> \<exists>v. int_digits ds acc = Inr v \<and> (0 \<le> acc \<longrightarrow> 0 \<le> v)"
proof (induction ds arbitrary: acc)
  case Nil
  then show ?case by simp
next
  case (Cons c ds)
  then obtain d where d: "digit_value c = Some d" by (auto simp: is_digit_def)
  from Cons.IH[of "10 * acc + int d"] Cons.prems d show ?case by auto
qed


lemma re_search_digits_Some:
  assumes "re_search_digits s = Some grp"
  shows "grp \<noteq> [] \<and> (\<forall>c\<in>set grp. is_digit c) \<and> set grp \<subseteq> set s"
proof -
  from assms obtain d ds where dw: "dropWhile (\<lambda>c. \<not> is_digit c) s = d # ds"
    and grp: "grp = takeWhile is_digit (d # ds)"
    by (auto simp: re_search_digits_def split: list.splits)
  from dw have "is_digit d" using hd_dropWhile[of "\<lambda>c. \<not> is_digit c" s] by auto
  with grp have "grp \<noteq> []" by simp
  moreover have "\<forall>c\<in>set grp. is_digit c" using grp by (auto dest: set_takeWhileD)
  moreover have "set grp \<subseteq> set s"
  proof -
    have "set grp \<subseteq> set (d # ds)" unfolding grp by (auto dest: set_takeWhileD)
    also have "\<dots> \<subseteq> set s" using dw by (metis set_dropWhileD subsetI)
    finally show ?thesis .
  qed
  ultimately show ?thesis by blast
qed

lemma re_search_digits_None:
  assumes "\<forall>c\<in>set s. \<not> is_digit c"
  shows "re_search_digits s = None"
proof -
  have dw: "dropWhile (\<lambda>c. \<not> is_digit c) s = []"
    using assms by (simp add: dropWhile_eq_Nil_conv)
  show ?thesis unfolding re_search_digits_def dw by simp
qed

lemma re_search_digits_run:
  assumes "\<forall>c\<in>set pre. \<not> is_digit c" "ds \<noteq> []" "\<forall>c\<in>set ds. is_digit c"
    "\<forall>c\<in>set post. \<not> is_digit c"
  shows "re_search_digits (pre @ ds @ post) = Some ds"
proof -
  have "dropWhile (\<lambda>c. \<not> is_digit c) (pre @ ds @ post) = dropWhile (\<lambda>c. \<not> is_digit c) (ds @ post)"
    using assms(1) by (simp add: dropWhile_append2)
  also have "\<dots> = ds @ post" using assms(2,3) by (cases ds) auto
  finally have dw: "dropWhile (\<lambda>c. \<not> is_digit c) (pre @ ds @ post) = ds @ post" .
  have "takeWhile is_digit (ds @ post) = ds @ takeWhile is_digit post"
    using assms(3) by (simp add: takeWhile_append2)
  also have "takeWhile is_digit post = []" using assms(4) by (cases post) auto
  finally have tw: "takeWhile is_digit (ds @ post) = ds" by simp
  obtain d ds' where ds: "ds = d # ds'" using assms(2) by (cases ds) auto
  show ?thesis using dw tw by (simp add: re_search_digits_def ds)
qed

lemma parse_roll_count_total: "\<exists>k. parse_roll_count t = Inr k \<and> 1 \<le> k"
proof (cases "re_search_digits (cn_replace t)")
  case None
  then show ?thesis by (simp add: parse_roll_count_def roll_count_of_def)
next
  case (Some grp)
  from re_search_digits_Some[OF Some] have ne: "grp \<noteq> []" and dg: "\<forall>c\<in>set grp. is_digit c"
    by auto
  from int_digits_total[OF dg, of 0] obtain v where "int_digits grp 0 = Inr v" by auto
  with ne Some show ?thesis by (simp add: parse_roll_count_def roll_count_of_def py_int_def)
qed

lemma plain_char_sub: "plain_char c \<Longrightarrow> cn_sub c = [c]"
  by (simp add: plain_char_def cn_sub_def single_words_eq cn_num_map_def)

lemma plain_chars_replace: "\<forall>c\<in>set s. plain_char c \<Longrightarrow> cn_replace s = s"
  by (induction s) (simp_all add: cn_replace_eq plain_char_sub)

lemma cn_replace_append: "cn_replace (xs @ ys) = cn_replace xs @ cn_replace ys"
  by (simp add: cn_replace_eq)

lemma cn_replace_str_nat: "cn_replace (str_nat n) = str_nat n"
proof -
  have "cn_sub d = [d]" if "d \<in> set (str_nat n)" for d
  proof -
    from that have "d < 58" using str_nat_digits by blast
    then have "map_of single_words d = None"
      using single_words_keys by (force simp: map_of_eq_None_iff)
    then show ?thesis by (simp add: cn_sub_def)
  qed
  then have m: "map cn_sub (str_nat n) = map (\<lambda>d. [d]) (str_nat n)"
    by (intro map_cong) simp_all
  have c: "concat (map (\<lambda>d. [d]) xs) = xs" for xs :: "nat list"
    by (induction xs) simp_all
  show ?thesis by (simp only: cn_replace_eq m c)
qed


lemma plain_not_digit: "plain_char c \<Longrightarrow> \<not> is_digit c"
  by (simp add: plain_char_def)

lemma parse_plain_around:
  assumes pre: "\<forall>c\<in>set pre. plain_char c" and post: "\<forall>c\<in>set post. plain_char c"
    and ds: "cn_replace mid = ds" "ds \<noteq> []" "\<forall>c\<in>set ds. is_digit c"
  shows "parse_roll_count (pre @ mid @ post) = roll_count_of (Some ds)"
proof -
  have "cn_replace (pre @ mid @ post) = pre @ ds @ post"
    using pre post ds(1) by (simp add: cn_replace_append plain_chars_replace)
  moreover have "re_search_digits (pre @ ds @ post) = Some ds"
    using pre post ds(2,3) by (intro re_search_digits_run) (auto dest: plain_not_digit)
  ultimately show ?thesis by (simp add: parse_roll_count_def)
qed

lemma roll_count_of_str_nat:
  "roll_count_of (Some (str_nat n)) = Inr (if 0 < n then int n else 1)"
  by (simp add: roll_count_of_def py_int_str_nat)





subsection \<open>The outcomes of the roll command\<close>

lemma maybe_hint_frame:
  "data_path (maybe_hint c w) = data_path w"
  "raised (maybe_hint c w) = raised w"
  "logged (maybe_hint c w) = logged w"
  by (simp_all add: maybe_hint_def bot_send_def random_lt_fifth_def split: prod.splits)


lemma before_try_frame:
  "data_path (before_try ev n w) = data_path w"
  "raised (before_try ev n w) = raised w"
  "logged (before_try ev n w) = logged w"
  by (simp_all add: before_try_def maybe_hint_frame)

lemma command_asks_for_list:
  "asks_for_list ev \<Longrightarrow> gacha_phantom_command rd cfg today_str ev w = w"
  by (simp add: gacha_phantom_command_def asks_for_list_def)

lemma command_exhausted:
  assumes "\<not> asks_for_list ev" "parse_roll_count (text_of ev) = Inr n"
    "quota_le (remaining_today cfg (data_path w) (user_id ev) today_str) 0"
  shows "gacha_phantom_command rd cfg today_str ev w = bot_send QuotaExhausted (before_try ev n w)"
  using assms
  by (simp add: gacha_phantom_command_def asks_for_list_def parse_roll_count_def Let_def
      roll_checked_def before_try_def maybe_hint_frame remaining_today_def count_today_def)

lemma command_insufficient:
  assumes "\<not> asks_for_list ev" "parse_roll_count (text_of ev) = Inr n"
    "\<not> quota_le (remaining_today cfg (data_path w) (user_id ev) today_str) 0"
    "quota_less (remaining_today cfg (data_path w) (user_id ev) today_str) n"
  shows "gacha_phantom_command rd cfg today_str ev w =
           bot_send (QuotaInsufficient
             (quota_times (remaining_today cfg (data_path w) (user_id ev) today_str) 50))
             (before_try ev n w)"
  using assms
  by (simp add: gacha_phantom_command_def asks_for_list_def parse_roll_count_def Let_def
      roll_checked_def before_try_def maybe_hint_frame remaining_today_def count_today_def)

lemma command_accepted:
  assumes "accepted cfg today_str ev n w" "parse_roll_count (text_of ev) = Inr n"
  shows "gacha_phantom_command rd cfg today_str ev w =
           (case roll_try rd cfg today_str (user_id ev) (user_name_of ev)
                   (get_day (load_records (user_id ev) (data_path w)) today_str)
                   (remaining_today cfg (data_path w) (user_id ev) today_str) n
                   (before_try ev n w) of
              (w', None) \<Rightarrow> w'
            | (w', Some e) \<Rightarrow> w'\<lparr>logged := logged w' @ [LogException e]\<rparr>)"
  using assms
  by (simp add: accepted_def gacha_phantom_command_def asks_for_list_def parse_roll_count_def
      Let_def roll_checked_def before_try_def maybe_hint_frame remaining_today_def
      count_today_def)

text \<open>The three ways the \<^verbatim>\<open>try\<close> block can end.\<close>

lemma accepted_loop_fails:
  assumes "accepted cfg today_str ev n w" "parse_roll_count (text_of ev) = Inr n"
    "roll_loop rd cfg (count_today (data_path w) (user_id ev) today_str) 0 (nat n)
       (rng (before_try ev n w)) = (Inl e, g')"
  shows "gacha_phantom_command rd cfg today_str ev w =
           (before_try ev n w)\<lparr>rng := g', logged := logged w @ [LogException e]\<rparr>"
  using assms(3)
  by (simp add: command_accepted[OF assms(1,2)] roll_try_def Let_def count_today_def
      before_try_frame)

lemma accepted_finish_fails:
  assumes "accepted cfg today_str ev n w" "parse_roll_count (text_of ev) = Inr n"
    "roll_loop rd cfg (count_today (data_path w) (user_id ev) today_str) 0 (nat n)
       (rng (before_try ev n w)) = (Inr (new, images), g')"
    "finish_image rd images (user_name_of ev)
       (quota_minus (remaining_today cfg (data_path w) (user_id ev) today_str) n) = Inl e"
  shows "gacha_phantom_command rd cfg today_str ev w =
           (before_try ev n w)
             \<lparr>data_path := (data_path w)(user_id ev \<mapsto>
                  Json (appended_doc (data_path w) (user_id ev) today_str new)),
              logged := logged w @ [LogException e], rng := g'\<rparr>"
  using assms(3,4)
  by (simp add: command_accepted[OF assms(1,2)] roll_try_def Let_def count_today_def
      before_try_frame save_records_def appended_doc_def)

lemma accepted_succeeds:
  assumes "accepted cfg today_str ev n w" "parse_roll_count (text_of ev) = Inr n"
    "roll_loop rd cfg (count_today (data_path w) (user_id ev) today_str) 0 (nat n)
       (rng (before_try ev n w)) = (Inr (new, images), g')"
    "finish_image rd images (user_name_of ev)
       (quota_minus (remaining_today cfg (data_path w) (user_id ev) today_str) n) = Inr b"
  shows "gacha_phantom_command rd cfg today_str ev w =
           (before_try ev n w)
             \<lparr>data_path := (data_path w)(user_id ev \<mapsto>
                  Json (appended_doc (data_path w) (user_id ev) today_str new)),
              sent := sent (before_try ev n w) @ [Picture b],
              logged := logged w @ [LogPerformed (user_id ev) (user_name_of ev) n],
              rng := g'\<rparr>"
  using assms(3,4)
  by (simp add: command_accepted[OF assms(1,2)] roll_try_def Let_def count_today_def
      before_try_frame save_records_def appended_doc_def bot_send_def)

lemma roll_loop_lengths:
  "roll_loop rd cfg d i k g = (Inr (new, images), g') \<Longrightarrow>
   length new = k \<and> length images = k"
proof (induction k arbitrary: i g new images g')
  case 0
  then show ?case by simp
next
  case (Suc k)
  from Suc.prems obtain stats g1 img recs imgs where
    "roll_loop rd cfg d (Suc i) k g1 = (Inr (recs, imgs), g')"
    "new = stats # recs" "images = img # imgs"
    by (auto split: prod.splits sum.splits)
  with Suc.IH show ?case by auto
qed

lemma roll_loop_generate_n:
  "roll_loop rd cfg d i k g = (Inr (new, images), g') \<Longrightarrow>
   generate_n cfg k g = (Inr new, g')"
proof (induction k arbitrary: i g new images g')
  case 0
  then show ?case by simp
next
  case (Suc k)
  from Suc.prems obtain stats g1 img recs imgs where
    gen: "generate_phantom_stats cfg g = (Inr stats, g1)" and
    rest: "roll_loop rd cfg d (Suc i) k g1 = (Inr (recs, imgs), g')" and
    new: "new = stats # recs"
    by (auto split: prod.splits sum.splits)
  from Suc.IH[OF rest] gen new show ?case by simp
qed

lemma command_raised: "raised (gacha_phantom_command rd cfg today_str ev w) = raised w"
proof -
  obtain n where n: "parse_roll_count (text_of ev) = Inr n" "1 \<le> n"
    using parse_roll_count_total by blast
  show ?thesis
  proof (cases "asks_for_list ev")
    case True
    then show ?thesis by (simp add: command_asks_for_list)
  next
    case False
    then show ?thesis using n(1)
      by (simp add: gacha_phantom_command_def asks_for_list_def parse_roll_count_def Let_def
          roll_checked_def roll_try_def bot_send_def maybe_hint_frame
          split: prod.splits sum.splits option.splits)
  qed
qed

lemma command_outcome:
  assumes n: "parse_roll_count (text_of ev) = Inr n"
  shows "data_path (gacha_phantom_command rd cfg today_str ev w) = data_path w \<or>
         (accepted cfg today_str ev n w \<and>
          (\<exists>new. length new = nat n \<and>
             data_path (gacha_phantom_command rd cfg today_str ev w) =
               (data_path w)(user_id ev \<mapsto>
                  Json (appended_doc (data_path w) (user_id ev) today_str new))))"
proof -
  let ?rem = "remaining_today cfg (data_path w) (user_id ev) today_str"
  consider (list) "asks_for_list ev"
    | (exhausted) "\<not> asks_for_list ev" "quota_le ?rem 0"
    | (insufficient) "\<not> asks_for_list ev" "\<not> quota_le ?rem 0" "quota_less ?rem n"
    | (acc) "accepted cfg today_str ev n w"
    by (auto simp: accepted_def)
  then show ?thesis
  proof cases
    case list
    then show ?thesis by (simp add: command_asks_for_list)
  next
    case exhausted
    then show ?thesis by (simp add: command_exhausted[OF _ n] bot_send_def before_try_frame)
  next
    case insufficient
    then show ?thesis by (simp add: command_insufficient[OF _ n] bot_send_def before_try_frame)
  next
    case acc
    obtain r g' where loop:
      "roll_loop rd cfg (count_today (data_path w) (user_id ev) today_str) 0 (nat n)
         (rng (before_try ev n w)) = (r, g')" by force
    show ?thesis
    proof (cases r)
      case (Inl e)
      with loop show ?thesis by (simp add: accepted_loop_fails[OF acc n] before_try_frame)
    next
      case (Inr p)
      obtain new images where p: "p = (new, images)" by (cases p)
      from loop Inr p have l: "roll_loop rd cfg (count_today (data_path w) (user_id ev) today_str)
          0 (nat n) (rng (before_try ev n w)) = (Inr (new, images), g')" by simp
      from roll_loop_lengths[OF l] have len: "length new = nat n" by simp
      show ?thesis
      proof (cases "finish_image rd images (user_name_of ev) (quota_minus ?rem n)")
        case (Inl e)
        show ?thesis using acc len by (auto simp: accepted_finish_fails[OF acc n l Inl])
      next
        case (Inr b)
        show ?thesis using acc len by (auto simp: accepted_succeeds[OF acc n l Inr])
      qed
    qed
  qed
qed


subsection \<open>Runs on the demo configuration\<close>

lemma generate_phantom_stats_total:
  assumes "stats_count (settings cfg) = Some k" "0 \<le> k"
    "\<forall>sc\<in>set (substats cfg). c_values sc \<noteq> []"
  shows "\<exists>stats g'. generate_phantom_stats cfg g = (Inr stats, g')"
proof -
  from selected_configs_total[OF assms(1,2), of g] obtain sel g1 where
    sel: "selected_configs cfg g = (Inr sel, g1)" "set sel \<subseteq> set (substats cfg)" by blast
  with assms(3) have "\<forall>sc\<in>set sel. c_values sc \<noteq> []" by blast
  from roll_stats_total[OF this, of g1] sel(1) show ?thesis
    by (simp add: generate_phantom_stats_def)
qed

lemma roll_loop_total:
  assumes "\<And>g. \<exists>stats g'. generate_phantom_stats cfg g = (Inr stats, g')"
    and "\<And>stats r. \<exists>img. draw_single_result_card rd stats r = Inr img"
  shows "\<exists>new images g'. roll_loop rd cfg d i k g = (Inr (new, images), g')"
proof (induction k arbitrary: i g)
  case 0
  show ?case by simp
next
  case (Suc k)
  from assms(1)[of g] obtain stats g1 where gen: "generate_phantom_stats cfg g = (Inr stats, g1)"
    by blast
  from assms(2)[of stats "d + int i + 1"] obtain img where
    img: "draw_single_result_card rd stats (d + int i + 1) = Inr img" by blast
  from Suc[of "Suc i" g1] obtain new images g' where
    "roll_loop rd cfg d (Suc i) k g1 = (Inr (new, images), g')" by blast
  with gen img show ?case by simp
qed

lemma demo_generate_total:
  "\<exists>stats g'. generate_phantom_stats demo_config g = (Inr stats, g')"
  by (rule generate_phantom_stats_total[where k = 2]) (simp_all add: demo_config_def)

lemma demo_roll_loop:
  "\<exists>new images g'. roll_loop demo_render demo_config d i k g = (Inr (new, images), g')"
  by (rule roll_loop_total[OF demo_generate_total]) (simp add: demo_render_def)

lemma demo_finish_image: "finish_image demo_render images user_name q = Inr q"
  by (simp add: finish_image_def demo_render_def)

lemma parse_str_nat: "parse_roll_count (str_nat k) = Inr (if 0 < k then int k else 1)"
  using parse_plain_around[of "[]" "[]" "str_nat k" "str_nat k"]
  by (simp add: cn_replace_str_nat str_nat_nonempty str_nat_is_digit roll_count_of_str_nat)

lemma search_str_nat: "re_search_digits (cn_replace (str_nat k)) = Some (str_nat k)"
  using re_search_digits_run[of "[]" "str_nat k" "[]"]
  by (simp add: cn_replace_str_nat str_nat_nonempty str_nat_is_digit)

lemma str_nat_small: "str_nat 3 = [51]" "str_nat 21 = [50, 49]" "str_nat (Suc 0) = [49]"
  by (simp_all add: str_nat.simps[of 3] str_nat.simps[of 21] str_nat.simps[of 2]
      str_nat.simps[of "Suc 0"])

lemma before_try_count: "0 < k \<Longrightarrow> before_try (demo_event uid (str_nat k)) (int k) w = w"
  by (simp add: before_try_def demo_event_def search_str_nat maybe_hint_def)

lemma count_today_world_with:
  "count_today (data_path (world_with uid day k)) uid day = int k"
  by (simp add: count_today_def world_with_def load_records_def get_day_def get_rolls_def)

lemma count_today_empty: "count_today (data_path empty_world) uid day = 0"
  by (simp add: count_today_def empty_world_def load_records_def get_day_def get_rolls_def)

lemma demo_limit: "command_limit demo_config ''u1'' = Finite 20"
  by (simp add: command_limit_def demo_config_def)

lemma not_asks_digits: "\<not> asks_for_list (demo_event uid (str_nat k))"
proof -
  have "\<not> py_contains [a, b] s" if "a \<notin> set s" for a b :: nat and s
    using that by (induction s) auto
  moreover have "21015 \<notin> set (str_nat k)" "32467 \<notin> set (str_nat k)"
    using str_nat_digits by fastforce+
  ultimately show ?thesis by (simp add: asks_for_list_def demo_event_def)
qed



subsection \<open>What the roll command writes\<close>

lemma count_today_appended:
  "count_today (fs(uid \<mapsto> Json (appended_doc fs uid today_str new))) uid today_str =
     count_today fs uid today_str + int (length new)"
  by (simp add: count_today_def load_records_def appended_doc_def get_day_def get_rolls_def)

lemma appended_doc_other_day:
  "day \<noteq> today_str \<Longrightarrow> appended_doc fs uid today_str new day = None"
  by (simp add: appended_doc_def)

text \<open>
  Claim C5, amended. When the roll command writes, the document it persists for the user
  holds today's date only: today's entry is the stored one with the new rolls appended
  to the user's list, other users' lists under today are unchanged, every entry stored
  under another date is dropped, and no other file is written.
\<close>

theorem roll_command_written_document:
  assumes "data_path (gacha_phantom_command rd cfg today_str ev w) \<noteq> data_path w"
  shows "\<exists>new. new \<noteq> [] \<and>
           load_records (user_id ev) (data_path (gacha_phantom_command rd cfg today_str ev w)) =
             appended_doc (data_path w) (user_id ev) today_str new \<and>
           (\<forall>day. day \<noteq> today_str \<longrightarrow>
              load_records (user_id ev)
                (data_path (gacha_phantom_command rd cfg today_str ev w)) day = None) \<and>
           get_rolls (get_day (load_records (user_id ev)
                (data_path (gacha_phantom_command rd cfg today_str ev w))) today_str) (user_id ev) =
             get_rolls (get_day (load_records (user_id ev) (data_path w)) today_str) (user_id ev)
               @ new \<and>
           (\<forall>u. u \<noteq> user_id ev \<longrightarrow>
              get_day (load_records (user_id ev)
                (data_path (gacha_phantom_command rd cfg today_str ev w))) today_str u =
              get_day (load_records (user_id ev) (data_path w)) today_str u) \<and>
           (\<forall>f. f \<noteq> user_id ev \<longrightarrow>
              data_path (gacha_phantom_command rd cfg today_str ev w) f = data_path w f)"
proof -
  obtain n where n: "parse_roll_count (text_of ev) = Inr n" "1 \<le> n"
    using parse_roll_count_total by blast
  from command_outcome[OF n(1), of rd cfg today_str w] assms obtain new where
    len: "length new = nat n" and
    dp: "data_path (gacha_phantom_command rd cfg today_str ev w) =
          (data_path w)(user_id ev \<mapsto> Json (appended_doc (data_path w) (user_id ev) today_str new))"
    by blast
  from len n(2) have "new \<noteq> []" by auto
  moreover have "load_records (user_id ev) (data_path (gacha_phantom_command rd cfg today_str ev w))
      = appended_doc (data_path w) (user_id ev) today_str new"
    by (simp add: dp load_records_def)
  ultimately show ?thesis
    by (intro exI[of _ new]) (simp add: dp appended_doc_def get_day_def get_rolls_def)
qed

lemma count_today_other_day:
  "d1 \<noteq> d2 \<Longrightarrow> count_today (data_path (world_with uid d1 k)) uid d2 = 0"
  by (simp add: count_today_def world_with_def load_records_def get_day_def get_rolls_def)

lemma demo_accepted:
  assumes "0 < k" "int k \<le> 20 - count_today (data_path w) ''u1'' today_str"
  shows "accepted demo_config today_str (demo_event ''u1'' (str_nat k)) (int k) w"
  using assms not_asks_digits[of "''u1''" k]
  by (simp add: accepted_def remaining_today_def demo_limit quota_minus_def quota_le_def
      quota_less_def demo_event_def)

lemma demo_success:
  assumes "0 < k" "int k \<le> 20 - count_today (data_path w) ''u1'' today_str"
  shows "\<exists>new g'. length new = k \<and>
           gacha_phantom_command demo_render demo_config today_str
               (demo_event ''u1'' (str_nat k)) w =
             w\<lparr>data_path := (data_path w)(''u1'' \<mapsto>
                   Json (appended_doc (data_path w) ''u1'' today_str new)),
               sent := sent w @ [Picture (Finite
                   (20 - count_today (data_path w) ''u1'' today_str - int k))],
               logged := logged w @ [LogPerformed ''u1'' [80, 108, 97, 121, 101, 114] (int k)],
               rng := g'\<rparr>"
proof -
  let ?ev = "demo_event ''u1'' (str_nat k)"
  have acc: "accepted demo_config today_str ?ev (int k) w" using assms by (rule demo_accepted)
  have p: "parse_roll_count (text_of ?ev) = Inr (int k)"
    using assms(1) by (simp add: demo_event_def parse_str_nat)
  have b: "before_try ?ev (int k) w = w" using assms(1) by (rule before_try_count)
  obtain new images g' where
    l: "roll_loop demo_render demo_config (count_today (data_path w) (user_id ?ev) today_str) 0
          (nat (int k)) (rng (before_try ?ev (int k) w)) = (Inr (new, images), g')"
    using demo_roll_loop by blast
  from roll_loop_lengths[OF l] have len: "length new = k" by simp
  note s = accepted_succeeds[OF acc p l demo_finish_image]
  have u: "user_id ?ev = ''u1''" by (simp add: demo_event_def)
  have nm: "user_name_of ?ev = [80, 108, 97, 121, 101, 114]"
    by (simp add: demo_event_def user_name_of_def)
  have "gacha_phantom_command demo_render demo_config today_str ?ev w =
      w\<lparr>data_path := (data_path w)(''u1'' \<mapsto>
            Json (appended_doc (data_path w) ''u1'' today_str new)),
        sent := sent w @ [Picture (Finite (20 - count_today (data_path w) ''u1'' today_str - int k))],
        logged := logged w @ [LogPerformed ''u1'' [80, 108, 97, 121, 101, 114] (int k)],
        rng := g'\<rparr>"
    unfolding s b
    by (simp add: u nm remaining_today_def demo_limit quota_minus_def)
  with len show ?thesis by blast
qed

text \<open>Witness of C5: three rolls on the day after two stored rolls.\<close>

theorem roll_command_written_document_witness:
  "data_path (gacha_phantom_command demo_render demo_config ''2026-01-02''
       (demo_event ''u1'' [51]) (world_with ''u1'' ''2026-01-01'' 2)) \<noteq>
     data_path (world_with ''u1'' ''2026-01-01'' 2) \<and>
   (\<exists>new. new \<noteq> [] \<and>
      load_records ''u1'' (data_path (gacha_phantom_command demo_render demo_config
          ''2026-01-02'' (demo_event ''u1'' [51]) (world_with ''u1'' ''2026-01-01'' 2))) =
        appended_doc (data_path (world_with ''u1'' ''2026-01-01'' 2)) ''u1'' ''2026-01-02'' new \<and>
      get_rolls (get_day (load_records ''u1'' (data_path (gacha_phantom_command demo_render
          demo_config ''2026-01-02'' (demo_event ''u1'' [51])
          (world_with ''u1'' ''2026-01-01'' 2))) ) ''2026-01-02'') ''u1'' = new)"
proof -
  let ?w = "world_with ''u1'' ''2026-01-01'' 2"
  let ?ev = "demo_event ''u1'' [51]"
  let ?w' = "gacha_phantom_command demo_render demo_config ''2026-01-02'' ?ev ?w"
  have c: "count_today (data_path ?w) ''u1'' ''2026-01-02'' = 0"
    by (simp add: count_today_other_day)
  from demo_success[of 3 ?w "''2026-01-02''"] c obtain new where
    dp: "data_path ?w' = (data_path ?w)(''u1'' \<mapsto>
           Json (appended_doc (data_path ?w) ''u1'' ''2026-01-02'' new))"
    by (auto simp: str_nat_small)
  have "data_path ?w' ''u1'' \<noteq> data_path ?w ''u1''"
  proof
    assume "data_path ?w' ''u1'' = data_path ?w ''u1''"
    then have "((data_path ?w)(''u1'' \<mapsto>
           Json (appended_doc (data_path ?w) ''u1'' ''2026-01-02'' new))) ''u1'' =
        data_path ?w ''u1''"
      by (simp only: dp)
    then have "appended_doc (data_path ?w) ''u1'' ''2026-01-02'' new =
        [''2026-01-01'' \<mapsto> [''u1'' \<mapsto> replicate 2 demo_roll]]"
      by (simp add: world_with_def)
    then have "appended_doc (data_path ?w) ''u1'' ''2026-01-02'' new ''2026-01-01'' =
        [''2026-01-01'' \<mapsto> [''u1'' \<mapsto> replicate 2 demo_roll]] ''2026-01-01''"
      by (simp only:)
    then show False by (simp add: appended_doc_def)
  qed
  then have neq: "data_path ?w' \<noteq> data_path ?w" by auto
  have old: "get_rolls (get_day (load_records ''u1'' (data_path ?w)) ''2026-01-02'') ''u1'' = []"
    by (simp add: world_with_def load_records_def get_day_def get_rolls_def)
  have u: "user_id ?ev = ''u1''" by (simp add: demo_event_def)
  from roll_command_written_document[OF neq] neq old u show ?thesis by auto
qed

text \<open>
  Claim C5 as stated fails: the two rolls stored under the previous day are gone from the
  persisted document after a roll command of the next day.
\<close>

theorem other_dates_dropped:
  "load_records ''u1'' (data_path (world_with ''u1'' ''2026-01-01'' 2)) ''2026-01-01'' =
     Some [''u1'' \<mapsto> replicate 2 demo_roll] \<and>
   load_records ''u1'' (data_path (gacha_phantom_command demo_render demo_config ''2026-01-02''
       (demo_event ''u1'' [51]) (world_with ''u1'' ''2026-01-01'' 2))) ''2026-01-01'' = None"
proof -
  let ?w = "world_with ''u1'' ''2026-01-01'' 2"
  have c: "count_today (data_path ?w) ''u1'' ''2026-01-02'' = 0"
    by (simp add: count_today_other_day)
  from demo_success[of 3 ?w "''2026-01-02''"] c obtain new where
    "data_path (gacha_phantom_command demo_render demo_config ''2026-01-02''
        (demo_event ''u1'' [51]) ?w) =
      (data_path ?w)(''u1'' \<mapsto> Json (appended_doc (data_path ?w) ''u1'' ''2026-01-02'' new))"
    by (auto simp: str_nat_small)
  then show ?thesis
    by (simp add: load_records_def appended_doc_def world_with_def)
qed

subsection \<open>Order of the steps and failures\<close>

text \<open>
  Claim C6, amended. In an accepted roll command each card is drawn right after its roll
  is generated. If a roll or a card fails, nothing is persisted and no picture is sent.
  If all succeed, the records are those of exactly \<open>count\<close> generator calls in a row,
  they are appended to the ledger in one batch, and only then the cards are combined, the
  footer added and the picture sent: a failure of that last step leaves the batch
  persisted.
\<close>

theorem roll_command_order:
  assumes "accepted cfg today_str ev n w" "parse_roll_count (text_of ev) = Inr n"
  shows "(\<forall>e g'. roll_loop rd cfg (count_today (data_path w) (user_id ev) today_str) 0 (nat n)
                      (rng (before_try ev n w)) = (Inl e, g') \<longrightarrow>
            data_path (gacha_phantom_command rd cfg today_str ev w) = data_path w \<and>
            sent (gacha_phantom_command rd cfg today_str ev w) = sent (before_try ev n w)) \<and>
         (\<forall>new images g'.
            roll_loop rd cfg (count_today (data_path w) (user_id ev) today_str) 0 (nat n)
              (rng (before_try ev n w)) = (Inr (new, images), g') \<longrightarrow>
            generate_n cfg (nat n) (rng (before_try ev n w)) = (Inr new, g') \<and>
            int (length new) = n \<and> length images = length new \<and>
            data_path (gacha_phantom_command rd cfg today_str ev w) =
              (data_path w)(user_id ev \<mapsto>
                 Json (appended_doc (data_path w) (user_id ev) today_str new)) \<and>
            (case finish_image rd images (user_name_of ev)
                    (quota_minus (remaining_today cfg (data_path w) (user_id ev) today_str) n) of
               Inl e \<Rightarrow>
                 sent (gacha_phantom_command rd cfg today_str ev w) = sent (before_try ev n w) \<and>
                 logged (gacha_phantom_command rd cfg today_str ev w) =
                   logged w @ [LogException e]
             | Inr b \<Rightarrow>
                 sent (gacha_phantom_command rd cfg today_str ev w) =
                   sent (before_try ev n w) @ [Picture b]))"
proof (intro conjI allI impI)
  fix e g'
  assume l: "roll_loop rd cfg (count_today (data_path w) (user_id ev) today_str) 0 (nat n)
      (rng (before_try ev n w)) = (Inl e, g')"
  note s = accepted_loop_fails[OF assms l]
  show "data_path (gacha_phantom_command rd cfg today_str ev w) = data_path w"
    by (simp add: s before_try_frame)
  show "sent (gacha_phantom_command rd cfg today_str ev w) = sent (before_try ev n w)"
    by (simp add: s)
next
  fix new images g'
  assume l: "roll_loop rd cfg (count_today (data_path w) (user_id ev) today_str) 0 (nat n)
      (rng (before_try ev n w)) = (Inr (new, images), g')"
  obtain k where "parse_roll_count (text_of ev) = Inr k" "1 \<le> k"
    using parse_roll_count_total by blast
  with assms(2) have n: "1 \<le> n" by simp
  show "generate_n cfg (nat n) (rng (before_try ev n w)) = (Inr new, g')"
    using l by (rule roll_loop_generate_n)
  from roll_loop_lengths[OF l] n show "int (length new) = n" "length images = length new"
    by simp_all
  let ?fin = "finish_image rd images (user_name_of ev)
      (quota_minus (remaining_today cfg (data_path w) (user_id ev) today_str) n)"
  show "data_path (gacha_phantom_command rd cfg today_str ev w) =
      (data_path w)(user_id ev \<mapsto> Json (appended_doc (data_path w) (user_id ev) today_str new))"
  proof (cases ?fin)
    case (Inl e)
    show ?thesis by (simp add: accepted_finish_fails[OF assms l Inl])
  next
    case (Inr b)
    show ?thesis by (simp add: accepted_succeeds[OF assms l Inr])
  qed
  show "case ?fin of
      Inl e \<Rightarrow>
        sent (gacha_phantom_command rd cfg today_str ev w) = sent (before_try ev n w) \<and>
        logged (gacha_phantom_command rd cfg today_str ev w) = logged w @ [LogException e]
    | Inr b \<Rightarrow>
        sent (gacha_phantom_command rd cfg today_str ev w) = sent (before_try ev n w) @ [Picture b]"
  proof (cases ?fin)
    case (Inl e)
    show ?thesis by (simp add: Inl accepted_finish_fails[OF assms l Inl])
  next
    case (Inr b)
    show ?thesis by (simp add: Inr accepted_succeeds[OF assms l Inr])
  qed
qed

text \<open>
  Claim C7. No exception leaves the roll command. An exception of a roll or of a card is
  logged and nothing is written; an exception of the later rendering is logged and the
  whole batch is written. In every case the files are unchanged, or the user's file holds
  today's entry extended by exactly \<open>count\<close> new records.
\<close>

theorem roll_command_all_or_nothing:
  assumes "parse_roll_count (text_of ev) = Inr n"
  shows "raised (gacha_phantom_command rd cfg today_str ev w) = raised w \<and>
         (data_path (gacha_phantom_command rd cfg today_str ev w) = data_path w \<or>
          (\<exists>new. int (length new) = n \<and>
             data_path (gacha_phantom_command rd cfg today_str ev w) =
               (data_path w)(user_id ev \<mapsto>
                  Json (appended_doc (data_path w) (user_id ev) today_str new)))) \<and>
         (accepted cfg today_str ev n w \<longrightarrow>
            (\<forall>e g'. roll_loop rd cfg (count_today (data_path w) (user_id ev) today_str) 0
                        (nat n) (rng (before_try ev n w)) = (Inl e, g') \<longrightarrow>
               logged (gacha_phantom_command rd cfg today_str ev w) =
                 logged w @ [LogException e] \<and>
               data_path (gacha_phantom_command rd cfg today_str ev w) = data_path w) \<and>
            (\<forall>new images g' e.
               roll_loop rd cfg (count_today (data_path w) (user_id ev) today_str) 0
                 (nat n) (rng (before_try ev n w)) = (Inr (new, images), g') \<and>
               finish_image rd images (user_name_of ev)
                 (quota_minus (remaining_today cfg (data_path w) (user_id ev) today_str) n) =
                 Inl e \<longrightarrow>
               logged (gacha_phantom_command rd cfg today_str ev w) =
                 logged w @ [LogException e] \<and>
               data_path (gacha_phantom_command rd cfg today_str ev w) =
                 (data_path w)(user_id ev \<mapsto>
                    Json (appended_doc (data_path w) (user_id ev) today_str new))))"
proof (intro conjI impI allI)
  show "raised (gacha_phantom_command rd cfg today_str ev w) = raised w"
    by (rule command_raised)
next
  obtain k where "parse_roll_count (text_of ev) = Inr k" "1 \<le> k"
    using parse_roll_count_total by blast
  with assms have n: "1 \<le> n" by simp
  have "int (length new) = n" if "length new = nat n" for new :: "'a roll_record list"
    using that n by simp
  with command_outcome[OF assms, of rd cfg today_str w]
  show "data_path (gacha_phantom_command rd cfg today_str ev w) = data_path w \<or>
      (\<exists>new. int (length new) = n \<and>
         data_path (gacha_phantom_command rd cfg today_str ev w) =
           (data_path w)(user_id ev \<mapsto>
              Json (appended_doc (data_path w) (user_id ev) today_str new)))"
    by blast
next
  fix e g'
  assume acc: "accepted cfg today_str ev n w"
    and l: "roll_loop rd cfg (count_today (data_path w) (user_id ev) today_str) 0
        (nat n) (rng (before_try ev n w)) = (Inl e, g')"
  note s = accepted_loop_fails[OF acc assms l]
  show "logged (gacha_phantom_command rd cfg today_str ev w) = logged w @ [LogException e]"
    by (simp add: s)
  show "data_path (gacha_phantom_command rd cfg today_str ev w) = data_path w"
    by (simp add: s before_try_frame)
next
  fix new images g' e
  assume acc: "accepted cfg today_str ev n w"
    and lf: "roll_loop rd cfg (count_today (data_path w) (user_id ev) today_str) 0
        (nat n) (rng (before_try ev n w)) = (Inr (new, images), g') \<and>
      finish_image rd images (user_name_of ev)
        (quota_minus (remaining_today cfg (data_path w) (user_id ev) today_str) n) = Inl e"
  note s = accepted_finish_fails[OF acc assms lf[THEN conjunct1] lf[THEN conjunct2]]
  show "logged (gacha_phantom_command rd cfg today_str ev w) = logged w @ [LogException e]"
    by (simp add: s)
  show "data_path (gacha_phantom_command rd cfg today_str ev w) =
      (data_path w)(user_id ev \<mapsto> Json (appended_doc (data_path w) (user_id ev) today_str new))"
    by (simp add: s)
qed

lemma failing_roll_loop:
  "\<exists>g'. roll_loop failing_render demo_config d i (Suc k) g = (Inl (RenderError 0), g')"
proof -
  obtain stats g1 where "generate_phantom_stats demo_config g = (Inr stats, g1)"
    using demo_generate_total by blast
  then show ?thesis by (simp add: failing_render_def)
qed

lemma one_roll_event:
  "parse_roll_count (text_of (demo_event ''u1'' [49])) = Inr 1"
  "accepted demo_config ''2026-01-02'' (demo_event ''u1'' [49]) 1 empty_world"
  "before_try (demo_event ''u1'' [49]) 1 empty_world = empty_world"
  using parse_str_nat[of "Suc 0"] demo_accepted[of "Suc 0" empty_world "''2026-01-02''"]
    before_try_count[of "Suc 0" "''u1''" empty_world]
  by (simp_all add: str_nat_small demo_event_def count_today_empty)

lemma three_roll_event:
  "parse_roll_count (text_of (demo_event ''u1'' [51])) = Inr 3"
  "accepted demo_config ''2026-01-02'' (demo_event ''u1'' [51]) 3 empty_world"
  "before_try (demo_event ''u1'' [51]) 3 empty_world = empty_world"
  using parse_str_nat[of 3] demo_accepted[of 3 empty_world "''2026-01-02''"]
    before_try_count[of 3 "''u1''" empty_world]
  by (simp_all add: str_nat_small demo_event_def count_today_empty)

text \<open>
  Claim C6 as stated fails: the roll is generated, drawing its card raises, and the
  record is not persisted.
\<close>

theorem card_failure_prevents_persisting:
  "fst (generate_phantom_stats demo_config (rng empty_world)) =
     Inr [\<lparr>name = [25915, 20987], icon = [25915, 20987], stat_value = 30,
            is_percent = False, is_max = False\<rparr>,
          \<lparr>name = [38450, 24481], icon = [38450, 24481], stat_value = 60,
            is_percent = False, is_max = True\<rparr>] \<and>
   data_path (gacha_phantom_command failing_render demo_config ''2026-01-02''
     (demo_event ''u1'' [49]) empty_world) = data_path empty_world \<and>
   logged (gacha_phantom_command failing_render demo_config ''2026-01-02''
     (demo_event ''u1'' [49]) empty_world) = [LogException (RenderError 0)] \<and>
   sent (gacha_phantom_command failing_render demo_config ''2026-01-02''
     (demo_event ''u1'' [49]) empty_world) = []"
proof -
  let ?ev = "demo_event ''u1'' [49]"
  obtain g' where l: "roll_loop failing_render demo_config
      (count_today (data_path empty_world) (user_id ?ev) ''2026-01-02'') 0 (nat 1)
      (rng (before_try ?ev 1 empty_world)) = (Inl (RenderError 0), g')"
    using failing_roll_loop[of _ 0 0] by (auto simp: one_roll_event)
  note s = accepted_loop_fails[OF one_roll_event(2,1) l]
  have "rng empty_world = demo_rng" by (simp add: empty_world_def)
  then show ?thesis
    by (simp add: s one_roll_event(3) demo_generate_fst) (simp add: empty_world_def)
qed

text \<open>Witness of C6: three rolls of a user without rolls, all steps succeeding.\<close>

theorem roll_command_order_witness:
  "accepted demo_config ''2026-01-02'' (demo_event ''u1'' [51]) 3 empty_world \<and>
   parse_roll_count (text_of (demo_event ''u1'' [51])) = Inr 3 \<and>
   (\<exists>new images g'.
      roll_loop demo_render demo_config 0 0 3 demo_rng = (Inr (new, images), g') \<and>
      generate_n demo_config 3 demo_rng = (Inr new, g') \<and> length new = 3 \<and>
      data_path (gacha_phantom_command demo_render demo_config ''2026-01-02''
        (demo_event ''u1'' [51]) empty_world) =
        [''u1'' \<mapsto> Json [''2026-01-02'' \<mapsto> [''u1'' \<mapsto> new]]] \<and>
      sent (gacha_phantom_command demo_render demo_config ''2026-01-02''
        (demo_event ''u1'' [51]) empty_world) = [Picture (Finite 17)])"
proof -
  let ?ev = "demo_event ''u1'' [51]"
  let ?w' = "gacha_phantom_command demo_render demo_config ''2026-01-02'' ?ev empty_world"
  have c: "count_today (data_path empty_world) (user_id ?ev) ''2026-01-02'' = 0"
    by (simp add: count_today_empty)
  have g: "rng (before_try ?ev 3 empty_world) = demo_rng"
    unfolding three_roll_event(3) by (simp add: empty_world_def)
  obtain new images g' where
    l: "roll_loop demo_render demo_config 0 0 3 demo_rng = (Inr (new, images), g')"
    using demo_roll_loop by blast
  have r: "remaining_today demo_config (data_path empty_world) (user_id ?ev) ''2026-01-02''
      = Finite 20"
    by (simp add: remaining_today_def count_today_empty demo_event_def demo_limit quota_minus_def)
  from roll_command_order[OF three_roll_event(2,1), of demo_render] l
  have "generate_n demo_config 3 demo_rng = (Inr new, g')" "length new = 3"
    and dp: "data_path ?w' = (data_path empty_world)(user_id ?ev \<mapsto>
        Json (appended_doc (data_path empty_world) (user_id ?ev) ''2026-01-02'' new))"
    and st: "sent ?w' = sent (before_try ?ev 3 empty_world) @ [Picture (Finite 17)]"
    by (simp_all add: c g r demo_finish_image quota_minus_def)
  moreover have "data_path ?w' = [''u1'' \<mapsto> Json [''2026-01-02'' \<mapsto> [''u1'' \<mapsto> new]]]"
    unfolding dp
    by (simp add: demo_event_def empty_world_def appended_doc_def load_records_def get_day_def
        get_rolls_def)
  moreover have "sent ?w' = [Picture (Finite 17)]"
    unfolding st three_roll_event(3) by (simp add: empty_world_def)
  ultimately show ?thesis using l three_roll_event(1,2) by blast
qed

lemma footer_failing_roll_loop:
  "\<exists>new images g'.
     roll_loop footer_failing_render demo_config d i k g = (Inr (new, images), g')"
  by (rule roll_loop_total[OF demo_generate_total])
    (simp add: footer_failing_render_def demo_render_def)

lemma footer_failing_finish:
  "finish_image footer_failing_render images user_name q = Inl (RenderError 1)"
  by (simp add: finish_image_def footer_failing_render_def demo_render_def)

text \<open>
  Witness of C7: one roll whose card cannot be drawn (nothing is written), and one roll
  whose footer cannot be drawn (the roll is written); both exceptions are logged.
\<close>

theorem roll_command_all_or_nothing_witness:
  "parse_roll_count (text_of (demo_event ''u1'' [49])) = Inr 1 \<and>
   accepted demo_config ''2026-01-02'' (demo_event ''u1'' [49]) 1 empty_world \<and>
   raised (gacha_phantom_command failing_render demo_config ''2026-01-02''
     (demo_event ''u1'' [49]) empty_world) = None \<and>
   logged (gacha_phantom_command failing_render demo_config ''2026-01-02''
     (demo_event ''u1'' [49]) empty_world) = [LogException (RenderError 0)] \<and>
   data_path (gacha_phantom_command failing_render demo_config ''2026-01-02''
     (demo_event ''u1'' [49]) empty_world) = data_path empty_world \<and>
   raised (gacha_phantom_command footer_failing_render demo_config ''2026-01-02''
     (demo_event ''u1'' [49]) empty_world) = None \<and>
   logged (gacha_phantom_command footer_failing_render demo_config ''2026-01-02''
     (demo_event ''u1'' [49]) empty_world) = [LogException (RenderError 1)] \<and>
   count_today (data_path (gacha_phantom_command footer_failing_render demo_config
     ''2026-01-02'' (demo_event ''u1'' [49]) empty_world)) ''u1'' ''2026-01-02'' = 1"
proof -
  let ?ev = "demo_event ''u1'' [49]"
  let ?w1 = "gacha_phantom_command failing_render demo_config ''2026-01-02'' ?ev empty_world"
  let ?w2 = "gacha_phantom_command footer_failing_render demo_config ''2026-01-02'' ?ev
      empty_world"
  obtain g' where l: "roll_loop failing_render demo_config
      (count_today (data_path empty_world) (user_id ?ev) ''2026-01-02'') 0 (nat 1)
      (rng (before_try ?ev 1 empty_world)) = (Inl (RenderError 0), g')"
    using failing_roll_loop[of _ 0 0] by (auto simp: one_roll_event)
  have e: "raised empty_world = None" "logged empty_world = []"
    by (simp_all add: empty_world_def)
  from roll_command_all_or_nothing[OF one_roll_event(1), of failing_render demo_config
      "''2026-01-02''" empty_world] one_roll_event(2) l e
  have first: "raised ?w1 = None" "logged ?w1 = [LogException (RenderError 0)]"
    "data_path ?w1 = data_path empty_world"
    by auto
  obtain new images g2 where l2: "roll_loop footer_failing_render demo_config
      (count_today (data_path empty_world) (user_id ?ev) ''2026-01-02'') 0 (nat 1)
      (rng (before_try ?ev 1 empty_world)) = (Inr (new, images), g2)"
    using footer_failing_roll_loop by blast
  from roll_loop_lengths[OF l2] have len: "length new = 1" by simp
  have u: "user_id ?ev = ''u1''" by (simp add: demo_event_def)
  from roll_command_all_or_nothing[OF one_roll_event(1), of footer_failing_render demo_config
      "''2026-01-02''" empty_world] one_roll_event(2) l2 footer_failing_finish e
  have second: "raised ?w2 = None" "logged ?w2 = [LogException (RenderError 1)]"
    and dp: "data_path ?w2 = (data_path empty_world)(user_id ?ev \<mapsto>
        Json (appended_doc (data_path empty_world) (user_id ?ev) ''2026-01-02'' new))"
    by auto
  have "count_today (data_path ?w2) ''u1'' ''2026-01-02'' = 1"
    unfolding dp u count_today_appended by (simp add: count_today_empty len)
  with first second one_roll_event(1,2) show ?thesis by simp
qed

subsection \<open>The daily limit\<close>

lemma within_step:
  assumes inv: "within_daily_limit cfg (data_path w)"
  shows "within_daily_limit cfg (data_path (gacha_phantom_command rd cfg today_str ev w))"
proof -
  obtain n where n: "parse_roll_count (text_of ev) = Inr n" "1 \<le> n"
    using parse_roll_count_total by blast
  let ?uid = "user_id ev"
  let ?fs = "data_path w"
  let ?rt = "get_day (load_records ?uid ?fs) today_str"
  let ?old = "get_rolls ?rt ?uid"
  from command_outcome[OF n(1), of rd cfg today_str w]
  show ?thesis
  proof
    assume "data_path (gacha_phantom_command rd cfg today_str ev w) = data_path w"
    with inv show ?thesis by simp
  next
    assume "accepted cfg today_str ev n w \<and>
      (\<exists>new. length new = nat n \<and>
         data_path (gacha_phantom_command rd cfg today_str ev w) =
           ?fs(?uid \<mapsto> Json (appended_doc ?fs ?uid today_str new)))"
    then obtain new where acc: "accepted cfg today_str ev n w" and len: "length new = nat n"
      and dp: "data_path (gacha_phantom_command rd cfg today_str ev w) =
           ?fs(?uid \<mapsto> Json (appended_doc ?fs ?uid today_str new))" by blast
    have fits: "\<not> quota_less (command_limit cfg ?uid) (int (length (?old @ new)))"
      using acc len n(2)
      by (auto simp: accepted_def remaining_today_def count_today_def quota_less_def
          quota_minus_def split: quota.splits)
    have others: "\<not> quota_less (command_limit cfg u) (int (length rs))"
      if "?rt u = Some rs" for u rs
    proof -
      from that obtain d where d: "load_records ?uid ?fs today_str = Some d" "d u = Some rs"
        by (auto simp: get_day_def split: option.splits)
      then obtain doc where "?fs ?uid = Some (Json doc)" "doc today_str = Some d"
        by (auto simp: load_records_def split: option.splits ledger_file.splits)
      with inv d(2) show ?thesis unfolding within_daily_limit_def by blast
    qed
    show ?thesis
      unfolding within_daily_limit_def dp
    proof (intro allI impI)
      fix f doc day d u rs
      assume f: "(?fs(?uid \<mapsto> Json (appended_doc ?fs ?uid today_str new))) f = Some (Json doc)"
        and day: "doc day = Some d" and u: "d u = Some rs"
      show "\<not> quota_less (command_limit cfg u) (int (length rs))"
      proof (cases "f = ?uid")
        case True
        with f have doc: "doc = appended_doc ?fs ?uid today_str new" by simp
        with day have d: "d = ?rt(?uid \<mapsto> ?old @ new)"
          by (auto simp: appended_doc_def split: if_splits)
        show ?thesis
        proof (cases "u = ?uid")
          case True
          with u d have "rs = ?old @ new" by simp
          with fits True show ?thesis by simp
        next
          case False
          with u d have "?rt u = Some rs" by simp
          then show ?thesis by (rule others)
        qed
      next
        case False
        with f have "?fs f = Some (Json doc)" by simp
        with inv day u show ?thesis unfolding within_daily_limit_def by blast
      qed
    qed
  qed
qed

text \<open>
  Claim C9. The ledger invariant is preserved by every sequence of roll commands, by any
  users on any days: no list of rolls stored for a user under a day's key is longer than
  the daily limit, unless that user is on the white list.
\<close>

theorem ledger_within_daily_limit:
  assumes "within_daily_limit cfg (data_path w)"
  shows "within_daily_limit cfg (data_path (run_commands rd cfg cmds w))"
  using assms
proof (induction cmds arbitrary: w)
  case Nil
  then show ?case by (simp add: run_commands_def)
next
  case (Cons c cmds)
  obtain today_str ev where c: "c = (today_str, ev)" by (cases c)
  have "within_daily_limit cfg (data_path (gacha_phantom_command rd cfg today_str ev w))"
    using Cons.prems by (rule within_step)
  from Cons.IH[OF this] show ?case by (simp add: run_commands_def c)
qed

lemma within_world_with:
  "int k \<le> 20 \<Longrightarrow> within_daily_limit demo_config (data_path (world_with ''u1'' day k))"
  by (auto simp: within_daily_limit_def world_with_def demo_limit quota_less_def
      split: if_splits)

text \<open>
  Witness of C9: a user with 17 rolls asks twice for three rolls; the first command is
  accepted, the second rejected, and the count ends at the limit 20.
\<close>

theorem ledger_within_daily_limit_witness:
  "within_daily_limit demo_config (data_path (world_with ''u1'' ''2026-01-02'' 17)) \<and>
   within_daily_limit demo_config (data_path (run_commands demo_render demo_config
     [(''2026-01-02'', demo_event ''u1'' [51]), (''2026-01-02'', demo_event ''u1'' [51])]
     (world_with ''u1'' ''2026-01-02'' 17))) \<and>
   count_today (data_path (run_commands demo_render demo_config
     [(''2026-01-02'', demo_event ''u1'' [51]), (''2026-01-02'', demo_event ''u1'' [51])]
     (world_with ''u1'' ''2026-01-02'' 17))) ''u1'' ''2026-01-02'' = 20"
proof -
  let ?w0 = "world_with ''u1'' ''2026-01-02'' 17"
  let ?ev = "demo_event ''u1'' [51]"
  let ?w1 = "gacha_phantom_command demo_render demo_config ''2026-01-02'' ?ev ?w0"
  let ?w2 = "gacha_phantom_command demo_render demo_config ''2026-01-02'' ?ev ?w1"
  have inv: "within_daily_limit demo_config (data_path ?w0)"
    by (rule within_world_with) simp
  have c0: "count_today (data_path ?w0) ''u1'' ''2026-01-02'' = 17"
    by (simp add: count_today_world_with)
  from demo_success[of 3 ?w0 "''2026-01-02''"] c0 obtain new where
    len: "length new = 3" and
    dp: "data_path ?w1 = (data_path ?w0)(''u1'' \<mapsto>
           Json (appended_doc (data_path ?w0) ''u1'' ''2026-01-02'' new))"
    by (auto simp: str_nat_small)
  have c1: "count_today (data_path ?w1) ''u1'' ''2026-01-02'' = 20"
    unfolding dp count_today_appended by (simp add: c0 len)
  have p: "parse_roll_count (text_of ?ev) = Inr 3"
    using parse_str_nat[of 3] by (simp add: str_nat_small demo_event_def)
  have u: "user_id ?ev = ''u1''" by (simp add: demo_event_def)
  have a: "\<not> asks_for_list ?ev"
    using not_asks_digits[of "''u1''" 3] by (simp add: str_nat_small)
  have "quota_le (remaining_today demo_config (data_path ?w1) (user_id ?ev) ''2026-01-02'') 0"
    unfolding u by (simp add: remaining_today_def demo_limit c1 quota_minus_def quota_le_def)
  from command_exhausted[OF a p this, of demo_render]
  have "data_path ?w2 = data_path ?w1" by (simp add: bot_send_def before_try_frame)
  with c1 have c2: "count_today (data_path ?w2) ''u1'' ''2026-01-02'' = 20" by simp
  have run: "run_commands demo_render demo_config
      [(''2026-01-02'', ?ev), (''2026-01-02'', ?ev)] ?w0 = ?w2"
    by (simp add: run_commands_def)
  from ledger_within_daily_limit[OF inv, of demo_render
      "[(''2026-01-02'', ?ev), (''2026-01-02'', ?ev)]"] inv c2 run
  show ?thesis by simp
qed

subsection \<open>The white list\<close>

lemma whitelisted_remaining_unbounded:
  assumes "white_list (settings cfg) = Some wl" "uid \<in> set wl"
  shows "remaining_today cfg fs uid today_str = Unbounded"
  using assms by (simp add: remaining_today_def command_limit_def quota_minus_def)

lemma demo_draw_history:
  "draw_history demo_render i rs = Inr (replicate (length rs) Unbounded)"
  by (induction rs arbitrary: i) (simp_all add: demo_render_def)

lemma history_nonempty:
  assumes "get_day (load_records (user_id ev) (data_path w)) today_str (user_id ev) = Some rs"
    "rs \<noteq> []"
  shows "show_gacha_history rd cfg today_str ev w =
           (case draw_history rd 0 rs of
              Inl e \<Rightarrow> w\<lparr>logged := logged w @ [LogException e]\<rparr>
            | Inr image_objects \<Rightarrow>
                (case finish_image rd image_objects (user_name_of ev)
                        (history_tuners_remaining cfg rs) of
                   Inl e \<Rightarrow> w\<lparr>logged := logged w @ [LogException e]\<rparr>
                 | Inr final_img_bytes \<Rightarrow> bot_send (Picture final_img_bytes) w))"
  using assms by (cases rs) (simp_all add: show_gacha_history_def Let_def split: sum.splits)

text \<open>
  Claim C4 on the code. The roll command computes an unbounded remaining quota for the
  user of the white list, whatever the number of rolls. The history command does not
  consult the white list: for the same user with 25 rolls today and the limit 20 it
  passes the remaining quota \<open>20 - 25 = -5\<close> to the footer.
\<close>

theorem history_remaining_ignores_white_list:
  "command_limit demo_config ''644572093'' = Unbounded \<and>
   remaining_today demo_config (data_path (world_with ''644572093'' ''2026-01-02'' 25))
     ''644572093'' ''2026-01-02'' = Unbounded \<and>
   history_tuners_remaining demo_config (replicate 25 demo_roll) = Finite (- 5) \<and>
   sent (show_gacha_history demo_render demo_config ''2026-01-02''
     (demo_event ''644572093'' []) (world_with ''644572093'' ''2026-01-02'' 25)) =
     [Picture (Finite (- 5))]"
proof -
  let ?ev = "demo_event ''644572093'' []"
  let ?w = "world_with ''644572093'' ''2026-01-02'' 25"
  have l: "command_limit demo_config ''644572093'' = Unbounded"
    by (simp add: command_limit_def demo_config_def)
  have r: "remaining_today demo_config (data_path ?w) ''644572093'' ''2026-01-02'' = Unbounded"
    by (simp add: remaining_today_def l quota_minus_def)
  have h: "history_tuners_remaining demo_config (replicate 25 demo_roll) = Finite (- 5)"
    by (simp add: history_tuners_remaining_def history_limit_def demo_config_def)
  have g: "get_day (load_records (user_id ?ev) (data_path ?w)) ''2026-01-02'' (user_id ?ev) =
      Some (replicate 25 demo_roll)"
    by (simp add: demo_event_def world_with_def load_records_def get_day_def)
  have ne: "replicate 25 demo_roll \<noteq> []" by simp
  have "show_gacha_history demo_render demo_config ''2026-01-02'' ?ev ?w =
      bot_send (Picture (Finite (- 5))) ?w"
    unfolding history_nonempty[OF g ne] by (simp add: demo_draw_history demo_finish_image h)
  then have "sent (show_gacha_history demo_render demo_config ''2026-01-02'' ?ev ?w) =
      [Picture (Finite (- 5))]"
    by (simp add: bot_send_def world_with_def empty_world_def)
  with l r h show ?thesis by simp
qed

end
